theory Spec2Isabelle
  imports Main
begin

section \<open>The syntax tree read by the tree shaker\<close>

text \<open>
  \<^verbatim>\<open>src/main.ts\<close> reads a small part of the tree that the parser returns. Every node
  has the offsets \<^verbatim>\<open>start\<close> and \<^verbatim>\<open>end\<close> of its text in the source; the model keeps
  them in a record and keeps, of each node kind, the fields that the code reads.
\<close>

record Node =
  node_start :: nat
  node_end :: nat

text \<open>
  An expression is an \<^verbatim>\<open>Identifier\<close>, a \<^verbatim>\<open>CallExpression\<close> (callee and arguments) or any
  other expression (a member access, \<^verbatim>\<open>new\<close>, \<^verbatim>\<open>await\<close>, ...).
\<close>

datatype Expression =
    Identifier Node string
  | CallExpression Node Expression "Expression list"
  | OtherExpression Node

text \<open>The \<^verbatim>\<open>imported\<close> field of an \<^verbatim>\<open>ImportSpecifier\<close>: an identifier or a string literal.\<close>

datatype ImportedName =
    ImportedIdentifier Node string
  | ImportedLiteral Node

datatype AnyImportSpecifier =
    ImportSpecifier Node ImportedName
  | ImportDefaultSpecifier Node
  | ImportNamespaceSpecifier Node

text \<open>The \<^verbatim>\<open>value\<close> of the literal \<^verbatim>\<open>source\<close> of an import declaration.\<close>

datatype LiteralValue =
    StringValue string
  | NonStringValue

datatype Statement =
    ImportDeclaration Node "AnyImportSpecifier list" LiteralValue
  | ExpressionStatement Node Expression
  | OtherStatement Node

record Program =
  body :: "Statement list"

fun statementNode :: "Statement \<Rightarrow> Node" where
  "statementNode (ImportDeclaration n specs v) = n"
| "statementNode (ExpressionStatement n e) = n"
| "statementNode (OtherStatement n) = n"

fun specifierNode :: "AnyImportSpecifier \<Rightarrow> Node" where
  "specifierNode (ImportSpecifier n i) = n"
| "specifierNode (ImportDefaultSpecifier n) = n"
| "specifierNode (ImportNamespaceSpecifier n) = n"

fun isImportDeclaration :: "Statement \<Rightarrow> bool" where
  "isImportDeclaration (ImportDeclaration n specs v) = True"
| "isImportDeclaration s = False"

fun specifiers :: "Statement \<Rightarrow> AnyImportSpecifier list" where
  "specifiers (ImportDeclaration n specs v) = specs"
| "specifiers s = []"

fun sourceValue :: "Statement \<Rightarrow> LiteralValue" where
  "sourceValue (ImportDeclaration n specs v) = v"
| "sourceValue s = NonStringValue"

section \<open>Module\<close>

text \<open>
  A location is a \<^verbatim>\<open>URL\<close> object. Two \<^verbatim>\<open>URL\<close> objects with the same \<^verbatim>\<open>href\<close> are still
  two objects, and a JavaScript \<^verbatim>\<open>Map\<close> compares object keys by identity, so the model gives
  every object an identity: the position, in the tree of calls below \<^verbatim>\<open>treeShaker\<close>, of the
  call that allocated it.
\<close>

type_synonym ObjectId = "nat list"

record URL =
  urlId :: ObjectId
  href :: string

text \<open>
  A \<^verbatim>\<open>Module\<close> after \<^verbatim>\<open>init()\<close>: the class is private to the file and the graph calls its
  other methods only once \<^verbatim>\<open>init()\<close> has returned, so \<^verbatim>\<open>resolvedPath\<close>, \<^verbatim>\<open>source\<close> and
  \<^verbatim>\<open>program\<close> are set.
\<close>

record Module =
  input :: string
  parentUrl :: URL
  resolvedPath :: URL
  source :: string
  program :: Program

text \<open>
  \<^verbatim>\<open>String.prototype.slice(start, end)\<close> for offsets that are not negative: both are
  clamped to the length, and the result is empty when \<^verbatim>\<open>end \<le> start\<close>.
\<close>

definition slice :: "string \<Rightarrow> nat \<Rightarrow> nat \<Rightarrow> string" where
  "slice s a b = take (b - a) (drop a s)"

definition nodeToPlain :: "Module \<Rightarrow> Node \<Rightarrow> string" where
  "nodeToPlain m node = slice (source m) (node_start node) (node_end node)"

definition calculateImportDeclarations :: "Module \<Rightarrow> Statement list" where
  "calculateImportDeclarations m = filter isImportDeclaration (body (program m))"

text \<open>
  \<^verbatim>\<open>calculateDependencyPaths\<close>: the \<^verbatim>\<open>source.value\<close> of every import declaration, those
  that are not strings filtered out.
\<close>

fun stringValues :: "LiteralValue list \<Rightarrow> string list" where
  "stringValues [] = []"
| "stringValues (StringValue s # vs) = s # stringValues vs"
| "stringValues (NonStringValue # vs) = stringValues vs"

definition calculateDependencyPaths :: "Module \<Rightarrow> string list" where
  "calculateDependencyPaths m = stringValues (map sourceValue (calculateImportDeclarations m))"

text \<open>
  The inner loop of \<^verbatim>\<open>calculateImportSpecifiersMap\<close>: of the specifiers of one
  declaration, the \<^verbatim>\<open>ImportSpecifier\<close> nodes whose \<^verbatim>\<open>imported\<close> is an \<^verbatim>\<open>Identifier\<close>.
\<close>

fun isNamedSpecifier :: "AnyImportSpecifier \<Rightarrow> bool" where
  "isNamedSpecifier (ImportSpecifier n (ImportedIdentifier i name)) = True"
| "isNamedSpecifier s = False"

definition importSpecifiersOf :: "Statement \<Rightarrow> AnyImportSpecifier list" where
  "importSpecifiersOf importDeclaration = filter isNamedSpecifier (specifiers importDeclaration)"

text \<open>
  \<^verbatim>\<open>calculateImportSpecifiersMap\<close> fills a \<^verbatim>\<open>Map\<close> whose keys are the declaration nodes.
  Every element of \<^verbatim>\<open>program.body\<close> is an object of its own, so each \<^verbatim>\<open>set\<close> adds an
  entry; a \<^verbatim>\<open>Map\<close> is iterated in insertion order. The model is the list of entries.
\<close>

definition calculateImportSpecifiersMap :: "Module \<Rightarrow> (Statement \<times> AnyImportSpecifier list) list" where
  "calculateImportSpecifiersMap m =
     map (\<lambda>importDeclaration. (importDeclaration, importSpecifiersOf importDeclaration))
       (calculateImportDeclarations m)"

text \<open>
  \<^verbatim>\<open>calculateUsedSpecifiersInModuleBody\<close>: the callee of every statement of the body that
  is an expression statement whose expression is a call whose callee is an identifier.
\<close>

fun usedSpecifierOf :: "Statement \<Rightarrow> Node list" where
  "usedSpecifierOf (ExpressionStatement n (CallExpression c (Identifier i name) args)) = [i]"
| "usedSpecifierOf s = []"

definition calculateUsedSpecifiersInModuleBody :: "Module \<Rightarrow> Node list" where
  "calculateUsedSpecifiersInModuleBody m = concat (map usedSpecifierOf (body (program m)))"

definition anyUsed :: "Module \<Rightarrow> Node list \<Rightarrow> AnyImportSpecifier list \<Rightarrow> bool" where
  "anyUsed m usedSpecifiers importSpecifiers =
     list_ex (\<lambda>importSpecifier.
        list_ex (\<lambda>usedSpecifier.
           nodeToPlain m usedSpecifier = nodeToPlain m (specifierNode importSpecifier))
         usedSpecifiers)
       importSpecifiers"

text \<open>
  The public methods that read a module are written in state-passing form: they return
  their value and the module as the call leaves it.
\<close>

definition calculateNotUsedImportDeclarations :: "Module \<Rightarrow> Statement list \<times> Module" where
  "calculateNotUsedImportDeclarations m =
     (let importSpecifiersMap = calculateImportSpecifiersMap m;
          usedSpecifiers = calculateUsedSpecifiersInModuleBody m
      in (map fst (filter (\<lambda>(importDeclaration, importSpecifiers).
                      \<not> anyUsed m usedSpecifiers importSpecifiers) importSpecifiersMap), m))"

section \<open>The edit buffer\<close>

text \<open>
  What the code can throw: \<^verbatim>\<open>new URL\<close> refuses the specifier; \<^verbatim>\<open>readFile\<close> rejects; the parser
  refuses the text; \<^verbatim>\<open>remove\<close> of the edit buffer refuses a range (out of bounds, or its end
  before its start); the destructuring in \<^verbatim>\<open>Chunk.generate\<close> finds an empty map.
\<close>

datatype error =
    InvalidURL
  | ReadFileError
  | ParseError
  | OutOfBounds
  | EndBeforeStart
  | NotIterable

text \<open>
  Modelled from the spec: the edit buffer, \<^verbatim>\<open>MagicString\<close> of the package magic-string,
  is an external collaborator whose code is not in the repository. It is constructed from
  an original string, supports \<^verbatim>\<open>remove(start, end)\<close> and serialises to the final text
  honouring all removals regardless of call order, the offsets being offsets into the
  original string. The model keeps the original and the set of removed offsets. Of the
  package's behaviour it also keeps the two errors of \<^verbatim>\<open>remove\<close>: an empty range is
  ignored, an end beyond the original is out of bounds, and a start beyond the end is
  refused.
\<close>

record MagicString =
  original :: string
  removed :: "nat set"

text \<open>Modelled from the spec: \<^verbatim>\<open>new MagicString(original)\<close>, with nothing removed.\<close>

definition newMagicString :: "string \<Rightarrow> MagicString" where
  "newMagicString s = \<lparr>original = s, removed = {}\<rparr>"

text \<open>
  Modelled from the spec: \<^verbatim>\<open>remove(start, end)\<close>, which marks the offsets from \<^verbatim>\<open>start\<close> up
  to \<^verbatim>\<open>end\<close> of the original as removed.
\<close>

definition removeRange :: "MagicString \<Rightarrow> nat \<Rightarrow> nat \<Rightarrow> error + MagicString" where
  "removeRange code a b =
     (if a = b then Inr code
      else if length (original code) < b then Inl OutOfBounds
      else if b < a then Inl EndBeforeStart
      else Inr (code\<lparr>removed := removed code \<union> {a..<b}\<rparr>))"

text \<open>
  Modelled from the spec: \<^verbatim>\<open>toString()\<close>, the characters of the original at the offsets
  that are not removed, in the order of the original.
\<close>

definition toString :: "MagicString \<Rightarrow> string" where
  "toString code =
     map (\<lambda>i. original code ! i) (filter (\<lambda>i. i \<notin> removed code) [0..<length (original code)])"

text \<open>
  \<^verbatim>\<open>removeNodes\<close>: \<^verbatim>\<open>reduce\<close> over the nodes, each step removing the span of one node
  from the same buffer; an error of a step ends the reduction.
\<close>

fun removeNodes :: "MagicString \<Rightarrow> Node list \<Rightarrow> error + MagicString" where
  "removeNodes code [] = Inr code"
| "removeNodes code (nodeToRemove # nodes) =
     (case removeRange code (node_start nodeToRemove) (node_end nodeToRemove) of
        Inl e \<Rightarrow> Inl e
      | Inr code' \<Rightarrow> removeNodes code' nodes)"

definition getCode :: "Module \<Rightarrow> Node list \<Rightarrow> (error + string) \<times> Module" where
  "getCode m withRemovedNodes =
     (let str = newMagicString (source m)
      in if withRemovedNodes \<noteq> []
         then (case removeNodes str withRemovedNodes of
                 Inl e \<Rightarrow> (Inl e, m)
               | Inr str' \<Rightarrow> (Inr (toString str'), m))
         else (Inr (toString str), m))"

section \<open>Graph\<close>

text \<open>
  The collaborators of \<^verbatim>\<open>Module.init\<close>: \<^verbatim>\<open>new URL(input, parent)\<close>, which gives the
  \<^verbatim>\<open>href\<close> of the resolved location or throws; \<^verbatim>\<open>readFile\<close>, which gives the text at a
  location or rejects; and the parser, which gives the program of a text or throws.
\<close>

record World =
  resolveUrl :: "string \<Rightarrow> string \<Rightarrow> string option"
  readFile :: "string \<Rightarrow> string option"
  parse :: "string \<Rightarrow> Program option"

text \<open>
  \<^verbatim>\<open>new Module(path, parent)\<close> and \<^verbatim>\<open>init()\<close>: \<^verbatim>\<open>resolve\<close>, \<^verbatim>\<open>load\<close>, \<^verbatim>\<open>parse\<close>. The
  \<^verbatim>\<open>URL\<close> that \<^verbatim>\<open>resolve\<close> allocates gets the identity \<open>oid\<close> of the call.
\<close>

definition initialize :: "World \<Rightarrow> ObjectId \<Rightarrow> string \<Rightarrow> URL \<Rightarrow> error + Module" where
  "initialize w oid path parent =
     (case resolveUrl w path (href parent) of
        None \<Rightarrow> Inl InvalidURL
      | Some h \<Rightarrow>
          (case readFile w h of
             None \<Rightarrow> Inl ReadFileError
           | Some text \<Rightarrow>
               (case parse w text of
                  None \<Rightarrow> Inl ParseError
                | Some p \<Rightarrow>
                    Inr \<lparr>input = path, parentUrl = parent,
                         resolvedPath = \<lparr>urlId = oid, href = h\<rparr>,
                         source = text, program = p\<rparr>)))"

text \<open>
  \<^verbatim>\<open>Map.prototype.set\<close> of a \<^verbatim>\<open>Map\<close> whose keys are \<^verbatim>\<open>URL\<close> objects: the key is found
  when the map holds the same object, and then the value is replaced in place; otherwise
  the entry is added last.
\<close>

fun mapSet :: "URL \<Rightarrow> 'v \<Rightarrow> (URL \<times> 'v) list \<Rightarrow> (URL \<times> 'v) list" where
  "mapSet k v [] = [(k, v)]"
| "mapSet k v ((k', v') # entries) =
     (if urlId k' = urlId k then (k', v) # entries else (k', v') # mapSet k v entries)"

definition initModule ::
  "World \<Rightarrow> ObjectId \<Rightarrow> string \<Rightarrow> URL \<Rightarrow> (URL \<times> Module) list \<Rightarrow>
     error + (Module \<times> (URL \<times> Module) list)" where
  "initModule w oid path parent ms =
     (case initialize w oid path parent of
        Inl e \<Rightarrow> Inl e
      | Inr m \<Rightarrow> Inr (m, mapSet (resolvedPath m) m ms))"

text \<open>
  \<^verbatim>\<open>initModuleRecursively\<close> has no bound of its own, so the model counts the depth of
  the recursion: \<open>None\<close> is a build that has not settled within \<open>n\<close> levels. The result
  \<open>Some (Inl e)\<close> is a rejected promise, \<open>Some (Inr ms)\<close> a fulfilled one, with the
  graph's map as the call leaves it.

  \<^verbatim>\<open>Promise.all\<close> over the dependencies is rejected as soon as one callback is rejected,
  also when another never settles; it is fulfilled when all are; otherwise it stays
  pending. The callbacks write the same map; the model runs them in the order of the
  array, which is one of the schedules, and reports the first rejection in that order.
  The \<open>k\<close>-th callback of the call \<open>oid\<close> is the call \<open>oid @ [k]\<close>.
\<close>

fun initModuleRecursively ::
  "nat \<Rightarrow> World \<Rightarrow> ObjectId \<Rightarrow> string \<Rightarrow> URL \<Rightarrow> (URL \<times> Module) list \<Rightarrow>
     (error + (URL \<times> Module) list) option"
and initDependencies ::
  "nat \<Rightarrow> World \<Rightarrow> ObjectId \<Rightarrow> nat \<Rightarrow> string list \<Rightarrow> URL \<Rightarrow> (URL \<times> Module) list \<Rightarrow>
     (error + (URL \<times> Module) list) option"
where
  "initModuleRecursively 0 w oid path parent ms = None"
| "initModuleRecursively (Suc n) w oid path parent ms =
     (case initModule w oid path parent ms of
        Inl e \<Rightarrow> Some (Inl e)
      | Inr (m, ms') \<Rightarrow>
          initDependencies n w oid 0 (calculateDependencyPaths m) (resolvedPath m) ms')"
| "initDependencies n w oid k [] parent ms = Some (Inr ms)"
| "initDependencies n w oid k (moduleDependencyPath # paths) parent ms =
     (case initModuleRecursively n w (oid @ [k]) moduleDependencyPath parent ms of
        Some (Inl e) \<Rightarrow> Some (Inl e)
      | Some (Inr ms') \<Rightarrow> initDependencies n w oid (Suc k) paths parent ms'
      | None \<Rightarrow>
          (case initDependencies n w oid (Suc k) paths parent ms of
             Some (Inl e) \<Rightarrow> Some (Inl e)
           | Some (Inr ms') \<Rightarrow> None
           | None \<Rightarrow> None))"

record Graph =
  graph_source :: string
  graph_parent :: URL
  modules :: "(URL \<times> Module) list"

definition newGraph :: "string \<Rightarrow> URL \<Rightarrow> Graph" where
  "newGraph src parent = \<lparr>graph_source = src, graph_parent = parent, modules = []\<rparr>"

definition Graph_build :: "nat \<Rightarrow> World \<Rightarrow> ObjectId \<Rightarrow> Graph \<Rightarrow> (error + Graph) option" where
  "Graph_build n w oid g =
     (case initModuleRecursively n w oid (graph_source g) (graph_parent g) (modules g) of
        None \<Rightarrow> None
      | Some (Inl e) \<Rightarrow> Some (Inl e)
      | Some (Inr ms) \<Rightarrow> Some (Inr (g\<lparr>modules := ms\<rparr>)))"

text \<open>
  The loop of \<^verbatim>\<open>removeUnusedImports\<close> over \<^verbatim>\<open>this.modules.values()\<close>. The result map has
  the \<^verbatim>\<open>Module\<close> objects as keys; every entry of the graph's map holds a \<^verbatim>\<open>Module\<close> object
  of its own, so each \<^verbatim>\<open>set\<close> adds an entry. The loop returns the result map and the
  entries of the graph's map as the calls on the modules leave them.
\<close>

fun removeUnusedImportsLoop ::
  "(URL \<times> Module) list \<Rightarrow> (Module \<times> string) list \<Rightarrow>
     (error + (Module \<times> string) list) \<times> (URL \<times> Module) list" where
  "removeUnusedImportsLoop [] modulesWithNoUnusedImports = (Inr modulesWithNoUnusedImports, [])"
| "removeUnusedImportsLoop ((u, m) # entries) modulesWithNoUnusedImports =
     (let (notUsedDeclarations, m1) = calculateNotUsedImportDeclarations m;
          (modifiedCode, m2) = getCode m1 (map statementNode notUsedDeclarations)
      in case modifiedCode of
           Inl e \<Rightarrow> (Inl e, (u, m2) # entries)
         | Inr code \<Rightarrow>
             (let (r, entries') =
                    removeUnusedImportsLoop entries (modulesWithNoUnusedImports @ [(m2, code)])
              in (r, (u, m2) # entries')))"

definition removeUnusedImports :: "Graph \<Rightarrow> (error + (Module \<times> string) list) \<times> Graph" where
  "removeUnusedImports g =
     (let (r, entries) = removeUnusedImportsLoop (modules g) [] in (r, g\<lparr>modules := entries\<rparr>))"

section \<open>Chunk and the public function\<close>

record Chunk =
  graph :: Graph
  chunk_source :: string
  chunk_destination :: string
  chunk_parent :: URL

definition newChunk :: "string \<Rightarrow> string \<Rightarrow> URL \<Rightarrow> Chunk" where
  "newChunk src dest parent =
     \<lparr>graph = newGraph src parent, chunk_source = src, chunk_destination = dest, chunk_parent = parent\<rparr>"

definition Chunk_build :: "nat \<Rightarrow> World \<Rightarrow> ObjectId \<Rightarrow> Chunk \<Rightarrow> (error + Chunk) option" where
  "Chunk_build n w oid c =
     (case Graph_build n w oid (graph c) of
        None \<Rightarrow> None
      | Some (Inl e) \<Rightarrow> Some (Inl e)
      | Some (Inr g) \<Rightarrow> Some (Inr (c\<lparr>graph := g\<rparr>)))"

text \<open>
  \<^verbatim>\<open>generate\<close> of a chunk takes the code of the first entry of the map that
  \<^verbatim>\<open>removeUnusedImports\<close> returns; the destructuring throws when the map is empty.
\<close>

definition Chunk_generate :: "Chunk \<Rightarrow> (error + string) \<times> Chunk" where
  "Chunk_generate c =
     (let (withRemovedImports, g) = removeUnusedImports (graph c)
      in (case withRemovedImports of
            Inl e \<Rightarrow> Inl e
          | Inr [] \<Rightarrow> Inl NotIterable
          | Inr ((m, code) # rest) \<Rightarrow> Inr code,
          c\<lparr>graph := g\<rparr>))"

text \<open>
  The options: \<^verbatim>\<open>chunks\<close> is the record from destinations to sources, as the list of its
  properties in the order of their creation (for an object literal, the order in which
  they are written); \<^verbatim>\<open>parent\<close> is the base location.
\<close>

record Options =
  chunks :: "(string \<times> string) list"
  parent :: URL

text \<open>
  \<^verbatim>\<open>Object.entries\<close> lists the properties whose key is an array index (the canonical
  decimal string of an integer below \<open>2\<^sup>3\<^sup>2 - 1\<close>) first, in ascending numeric order, and
  the other properties after them, in the order of their creation.
\<close>

definition isDigit :: "char \<Rightarrow> bool" where
  "isDigit c = (48 \<le> (of_char c :: int) \<and> (of_char c :: int) \<le> 57)"

definition decimalValue :: "string \<Rightarrow> int" where
  "decimalValue key = foldl (\<lambda>v c. 10 * v + (of_char c - 48)) 0 key"

definition isArrayIndex :: "string \<Rightarrow> bool" where
  "isArrayIndex key =
     (key \<noteq> [] \<and> list_all isDigit key \<and> (key = ''0'' \<or> hd key \<noteq> CHR ''0'') \<and>
      decimalValue key < 4294967295)"

definition objectEntries :: "(string \<times> 'v) list \<Rightarrow> (string \<times> 'v) list" where
  "objectEntries properties =
     sort_key (\<lambda>(key, v). decimalValue key) (filter (\<lambda>(key, v). isArrayIndex key) properties) @
     filter (\<lambda>(key, v). \<not> isArrayIndex key) properties"

text \<open>
  \<^verbatim>\<open>Object.entries(options.chunks).map(async ...)\<close> calls the callback of each entry in the
  order of the entries, and each call runs up to its first suspension before the next
  starts: it makes its chunk, pushes it onto \<^verbatim>\<open>chunks\<close>, and is suspended in
  \<^verbatim>\<open>chunk.build()\<close>. So the array holds the chunks, not yet built, in the order of the
  entries.
\<close>

definition pushChunks :: "URL \<Rightarrow> (string \<times> string) list \<Rightarrow> Chunk list" where
  "pushChunks base entries =
     map (\<lambda>(chunkDestination, chunkSource). newChunk chunkSource chunkDestination base) entries"

text \<open>
  The builds then settle in an order that the code does not fix: the schedule lists the
  indices of the chunks in that order, each index once. The build of the chunk \<open>i\<close> writes
  the graph of that chunk, which the array holds; the \<open>i\<close>-th callback is the call \<open>[i]\<close>.
  \<^verbatim>\<open>Promise.all\<close> is rejected by the first build that is rejected, also when another never
  settles; it is fulfilled when all builds are; otherwise it stays pending.
\<close>

fun awaitBuilds :: "nat \<Rightarrow> World \<Rightarrow> nat list \<Rightarrow> Chunk list \<Rightarrow> (error + Chunk list) option" where
  "awaitBuilds n w [] cs = Some (Inr cs)"
| "awaitBuilds n w (i # schedule) cs =
     (case Chunk_build n w [i] (cs ! i) of
        Some (Inl e) \<Rightarrow> Some (Inl e)
      | Some (Inr c) \<Rightarrow> awaitBuilds n w schedule (cs[i := c])
      | None \<Rightarrow>
          (case awaitBuilds n w schedule cs of
             Some (Inl e) \<Rightarrow> Some (Inl e)
           | Some (Inr cs') \<Rightarrow> None
           | None \<Rightarrow> None))"

definition validSchedule :: "nat list \<Rightarrow> nat \<Rightarrow> bool" where
  "validSchedule schedule len = (distinct schedule \<and> set schedule = {0..<len})"

text \<open>
  \<^verbatim>\<open>treeShaker\<close> returns its handle when \<^verbatim>\<open>Promise.all\<close> is fulfilled; the handle is the
  array \<^verbatim>\<open>chunks\<close> that \<^verbatim>\<open>generate\<close> closes over.
\<close>

definition treeShaker :: "nat \<Rightarrow> World \<Rightarrow> nat list \<Rightarrow> Options \<Rightarrow> (error + Chunk list) option" where
  "treeShaker n w schedule options =
     awaitBuilds n w schedule (pushChunks (parent options) (objectEntries (chunks options)))"

fun generate :: "Chunk list \<Rightarrow> (error + string list) \<times> Chunk list" where
  "generate [] = (Inr [], [])"
| "generate (chunk # cs) =
     (let (r, chunk') = Chunk_generate chunk
      in case r of
           Inl e \<Rightarrow> (Inl e, chunk' # cs)
         | Inr code \<Rightarrow>
             (let (rs, cs') = generate cs
              in (case rs of Inl e \<Rightarrow> Inl e | Inr codes \<Rightarrow> Inr (code # codes), chunk' # cs')))"

section \<open>The properties in the words of the specification\<close>

text \<open>
  For comparison with the code: a statement is the top-level call of an identifier whose
  text is \<open>t\<close>; an import declaration is unused when no named specifier of it has the
  text of the callee of a top-level call.
\<close>

definition topLevelCallOf :: "Module \<Rightarrow> string \<Rightarrow> Statement \<Rightarrow> bool" where
  "topLevelCallOf m t s =
     (\<exists>n c i name args.
        s = ExpressionStatement n (CallExpression c (Identifier i name) args) \<and>
        nodeToPlain m i = t)"

definition unusedDeclaration :: "Module \<Rightarrow> Statement \<Rightarrow> bool" where
  "unusedDeclaration m d =
     (\<not> (\<exists>sp \<in> set (specifiers d). isNamedSpecifier sp \<and>
           (\<exists>s \<in> set (body (program m)). topLevelCallOf m (nodeToPlain m (specifierNode sp)) s)))"

text \<open>
  An offset lies in the span of a node; the offsets of a text that lie in no span of a
  list of nodes, in increasing order; the text at those offsets; and the spans of the
  nodes are spans of the text.
\<close>

definition inSpan :: "Node \<Rightarrow> nat \<Rightarrow> bool" where
  "inSpan n i = (node_start n \<le> i \<and> i < node_end n)"

definition keptOffsets :: "string \<Rightarrow> Node list \<Rightarrow> nat list" where
  "keptOffsets text nodes = filter (\<lambda>i. \<not> list_ex (\<lambda>n. inSpan n i) nodes) [0..<length text]"

definition withoutSpans :: "string \<Rightarrow> Node list \<Rightarrow> string" where
  "withoutSpans text nodes = map (\<lambda>i. text ! i) (keptOffsets text nodes)"

definition spansWithin :: "string \<Rightarrow> Node list \<Rightarrow> bool" where
  "spansWithin text nodes =
     list_all (\<lambda>n. node_start n \<le> node_end n \<and> node_end n \<le> length text) nodes"

text \<open>
  The source of a module without the spans of its unused import declarations; the spans
  of the statements of a module are spans of its source (as the parser gives them), for
  every module of a graph.
\<close>

definition editedSource :: "Module \<Rightarrow> string" where
  "editedSource m =
     withoutSpans (source m) (map statementNode (fst (calculateNotUsedImportDeclarations m)))"

definition spansWithinModule :: "Module \<Rightarrow> bool" where
  "spansWithinModule m = spansWithin (source m) (map statementNode (body (program m)))"

definition spansWithinGraph :: "Graph \<Rightarrow> bool" where
  "spansWithinGraph g = list_all (\<lambda>(u, m). spansWithinModule m) (modules g)"

text \<open>
  The build that the callback of the \<open>k\<close>-th entry awaits: that of the chunk made from the
  entry.
\<close>

definition buildChunk :: "nat \<Rightarrow> World \<Rightarrow> URL \<Rightarrow> nat \<times> string \<times> string \<Rightarrow> (error + Chunk) option" where
  "buildChunk n w base entry =
     (case entry of (k, chunkDestination, chunkSource) \<Rightarrow>
        Chunk_build n w [k] (newChunk chunkSource chunkDestination base))"

text \<open>
  The import paths of a program, as \<^verbatim>\<open>calculateDependencyPaths\<close> lists them. In a world,
  the modules at the locations \<open>S\<close> load within \<open>S\<close> when each of them is read and parsed
  and each of its import paths resolves to a location of \<open>S\<close>; the modules at \<open>T\<close> import
  within \<open>T\<close> when each of them is read and parsed and one of its import paths resolves
  to a location of \<open>T\<close>, so that every chain of imports from \<open>T\<close> can be continued for
  ever (in a finite world: it reaches a cycle).
\<close>

definition importPaths :: "Program \<Rightarrow> string list" where
  "importPaths p = stringValues (map sourceValue (filter isImportDeclaration (body p)))"

definition loadsWithin :: "World \<Rightarrow> string set \<Rightarrow> bool" where
  "loadsWithin w S =
     (\<forall>h \<in> S. \<exists>t p. readFile w h = Some t \<and> parse w t = Some p \<and>
        (\<forall>d \<in> set (importPaths p). \<exists>h' \<in> S. resolveUrl w d h = Some h'))"

definition importsWithin :: "World \<Rightarrow> string set \<Rightarrow> bool" where
  "importsWithin w T =
     (\<forall>h \<in> T. \<exists>t p. readFile w h = Some t \<and> parse w t = Some p \<and>
        (\<exists>d \<in> set (importPaths p). \<exists>h' \<in> T. resolveUrl w d h = Some h'))"

section \<open>Example modules and an example world\<close>

text \<open>
  Sources with the programs that the parser gives for them: the offsets are those of the
  text. The first three are single modules; the others are the files of the world below.
\<close>

definition source_abc :: string where
  \<open>source_abc = ''import {a} from "A";\<newline>import {b} from "B";\<newline>import {c} from "C";\<newline>a();\<newline>b();\<newline>''\<close>

definition program_abc :: Program where
  "program_abc = \<lparr>body = [
     ImportDeclaration \<lparr>node_start = 0, node_end = 20\<rparr> [ImportSpecifier \<lparr>node_start = 8, node_end = 9\<rparr> (ImportedIdentifier \<lparr>node_start = 8, node_end = 9\<rparr> ''a'')] (StringValue ''A''),
     ImportDeclaration \<lparr>node_start = 21, node_end = 41\<rparr> [ImportSpecifier \<lparr>node_start = 29, node_end = 30\<rparr> (ImportedIdentifier \<lparr>node_start = 29, node_end = 30\<rparr> ''b'')] (StringValue ''B''),
     ImportDeclaration \<lparr>node_start = 42, node_end = 62\<rparr> [ImportSpecifier \<lparr>node_start = 50, node_end = 51\<rparr> (ImportedIdentifier \<lparr>node_start = 50, node_end = 51\<rparr> ''c'')] (StringValue ''C''),
     ExpressionStatement \<lparr>node_start = 63, node_end = 67\<rparr> (CallExpression \<lparr>node_start = 63, node_end = 66\<rparr> (Identifier \<lparr>node_start = 63, node_end = 64\<rparr> ''a'') []),
     ExpressionStatement \<lparr>node_start = 68, node_end = 72\<rparr> (CallExpression \<lparr>node_start = 68, node_end = 71\<rparr> (Identifier \<lparr>node_start = 68, node_end = 69\<rparr> ''b'') [])
   ]\<rparr>"

definition source_alias :: string where
  \<open>source_alias = ''import { a as b } from "m";\<newline>a();\<newline>b();\<newline>''\<close>

definition program_alias :: Program where
  "program_alias = \<lparr>body = [
     ImportDeclaration \<lparr>node_start = 0, node_end = 27\<rparr> [ImportSpecifier \<lparr>node_start = 9, node_end = 15\<rparr> (ImportedIdentifier \<lparr>node_start = 9, node_end = 10\<rparr> ''a'')] (StringValue ''m''),
     ExpressionStatement \<lparr>node_start = 28, node_end = 32\<rparr> (CallExpression \<lparr>node_start = 28, node_end = 31\<rparr> (Identifier \<lparr>node_start = 28, node_end = 29\<rparr> ''a'') []),
     ExpressionStatement \<lparr>node_start = 33, node_end = 37\<rparr> (CallExpression \<lparr>node_start = 33, node_end = 36\<rparr> (Identifier \<lparr>node_start = 33, node_end = 34\<rparr> ''b'') [])
   ]\<rparr>"

definition source_bare :: string where
  \<open>source_bare = ''import "./z.js";\<newline>import d from "./z.js";\<newline>import * as n from "./z.js";\<newline>d();\<newline>''\<close>

definition program_bare :: Program where
  "program_bare = \<lparr>body = [
     ImportDeclaration \<lparr>node_start = 0, node_end = 16\<rparr> [] (StringValue ''./z.js''),
     ImportDeclaration \<lparr>node_start = 17, node_end = 40\<rparr> [ImportDefaultSpecifier \<lparr>node_start = 24, node_end = 25\<rparr>] (StringValue ''./z.js''),
     ImportDeclaration \<lparr>node_start = 41, node_end = 69\<rparr> [ImportNamespaceSpecifier \<lparr>node_start = 48, node_end = 54\<rparr>] (StringValue ''./z.js''),
     ExpressionStatement \<lparr>node_start = 70, node_end = 74\<rparr> (CallExpression \<lparr>node_start = 70, node_end = 73\<rparr> (Identifier \<lparr>node_start = 70, node_end = 71\<rparr> ''d'') [])
   ]\<rparr>"

definition source_e :: string where
  \<open>source_e = ''import {x} from "./x.js";\<newline>import {y} from "./y.js";\<newline>x();\<newline>y();\<newline>''\<close>

definition program_e :: Program where
  "program_e = \<lparr>body = [
     ImportDeclaration \<lparr>node_start = 0, node_end = 25\<rparr> [ImportSpecifier \<lparr>node_start = 8, node_end = 9\<rparr> (ImportedIdentifier \<lparr>node_start = 8, node_end = 9\<rparr> ''x'')] (StringValue ''./x.js''),
     ImportDeclaration \<lparr>node_start = 26, node_end = 51\<rparr> [ImportSpecifier \<lparr>node_start = 34, node_end = 35\<rparr> (ImportedIdentifier \<lparr>node_start = 34, node_end = 35\<rparr> ''y'')] (StringValue ''./y.js''),
     ExpressionStatement \<lparr>node_start = 52, node_end = 56\<rparr> (CallExpression \<lparr>node_start = 52, node_end = 55\<rparr> (Identifier \<lparr>node_start = 52, node_end = 53\<rparr> ''x'') []),
     ExpressionStatement \<lparr>node_start = 57, node_end = 61\<rparr> (CallExpression \<lparr>node_start = 57, node_end = 60\<rparr> (Identifier \<lparr>node_start = 57, node_end = 58\<rparr> ''y'') [])
   ]\<rparr>"

definition source_x :: string where
  \<open>source_x = ''import {z} from "./z.js";\<newline>z();\<newline>''\<close>

definition program_x :: Program where
  "program_x = \<lparr>body = [
     ImportDeclaration \<lparr>node_start = 0, node_end = 25\<rparr> [ImportSpecifier \<lparr>node_start = 8, node_end = 9\<rparr> (ImportedIdentifier \<lparr>node_start = 8, node_end = 9\<rparr> ''z'')] (StringValue ''./z.js''),
     ExpressionStatement \<lparr>node_start = 26, node_end = 30\<rparr> (CallExpression \<lparr>node_start = 26, node_end = 29\<rparr> (Identifier \<lparr>node_start = 26, node_end = 27\<rparr> ''z'') [])
   ]\<rparr>"

definition source_y :: string where
  \<open>source_y = ''import {z} from "./z.js";\<newline>''\<close>

definition program_y :: Program where
  "program_y = \<lparr>body = [
     ImportDeclaration \<lparr>node_start = 0, node_end = 25\<rparr> [ImportSpecifier \<lparr>node_start = 8, node_end = 9\<rparr> (ImportedIdentifier \<lparr>node_start = 8, node_end = 9\<rparr> ''z'')] (StringValue ''./z.js'')
   ]\<rparr>"

definition source_z :: string where
  \<open>source_z = ''export function z() {}\<newline>''\<close>

definition program_z :: Program where
  "program_z = \<lparr>body = [
     OtherStatement \<lparr>node_start = 0, node_end = 22\<rparr>
   ]\<rparr>"

definition source_a :: string where
  \<open>source_a = ''import {b} from "./b.js";\<newline>b();\<newline>''\<close>

definition program_a :: Program where
  "program_a = \<lparr>body = [
     ImportDeclaration \<lparr>node_start = 0, node_end = 25\<rparr> [ImportSpecifier \<lparr>node_start = 8, node_end = 9\<rparr> (ImportedIdentifier \<lparr>node_start = 8, node_end = 9\<rparr> ''b'')] (StringValue ''./b.js''),
     ExpressionStatement \<lparr>node_start = 26, node_end = 30\<rparr> (CallExpression \<lparr>node_start = 26, node_end = 29\<rparr> (Identifier \<lparr>node_start = 26, node_end = 27\<rparr> ''b'') [])
   ]\<rparr>"

definition source_b :: string where
  \<open>source_b = ''import {a} from "./a.js";\<newline>a();\<newline>''\<close>

definition program_b :: Program where
  "program_b = \<lparr>body = [
     ImportDeclaration \<lparr>node_start = 0, node_end = 25\<rparr> [ImportSpecifier \<lparr>node_start = 8, node_end = 9\<rparr> (ImportedIdentifier \<lparr>node_start = 8, node_end = 9\<rparr> ''a'')] (StringValue ''./a.js''),
     ExpressionStatement \<lparr>node_start = 26, node_end = 30\<rparr> (CallExpression \<lparr>node_start = 26, node_end = 29\<rparr> (Identifier \<lparr>node_start = 26, node_end = 27\<rparr> ''a'') [])
   ]\<rparr>"

definition baseUrl :: URL where
  "baseUrl = \<lparr>urlId = [], href = ''file:///''\<rparr>"

definition moduleOf :: "string \<Rightarrow> Program \<Rightarrow> Module" where
  "moduleOf text p =
     \<lparr>input = ''./m.js'', parentUrl = baseUrl,
      resolvedPath = \<lparr>urlId = [0], href = ''file:///m.js''\<rparr>, source = text, program = p\<rparr>"

definition module_abc :: Module where
  "module_abc = moduleOf source_abc program_abc"

definition module_alias :: Module where
  "module_alias = moduleOf source_alias program_alias"

definition module_bare :: Module where
  "module_bare = moduleOf source_bare program_bare"

text \<open>
  A world of seven files: \<^verbatim>\<open>e.js\<close> imports \<^verbatim>\<open>x.js\<close> and \<^verbatim>\<open>y.js\<close>, which both import
  \<^verbatim>\<open>z.js\<close>; \<^verbatim>\<open>a.js\<close> and \<^verbatim>\<open>b.js\<close> import each other; \<^verbatim>\<open>m.js\<close> imports \<^verbatim>\<open>z.js\<close> three times,
  never by a named specifier. The specifier \<^verbatim>\<open>./missing.js\<close> resolves to a location where
  there is no file.
\<close>

definition exampleWorld :: World where
  "exampleWorld =
     \<lparr>resolveUrl = (\<lambda>path base. map_of
        [(''./e.js'', ''file:///e.js''), (''./x.js'', ''file:///x.js''),
         (''./y.js'', ''file:///y.js''), (''./z.js'', ''file:///z.js''),
         (''./a.js'', ''file:///a.js''), (''./b.js'', ''file:///b.js''),
         (''./missing.js'', ''file:///missing.js''), (''./m.js'', ''file:///m.js'')] path),
      readFile = map_of
        [(''file:///e.js'', source_e), (''file:///x.js'', source_x),
         (''file:///y.js'', source_y), (''file:///z.js'', source_z),
         (''file:///a.js'', source_a), (''file:///b.js'', source_b),
         (''file:///m.js'', source_bare)],
      parse = map_of
        [(source_e, program_e), (source_x, program_x), (source_y, program_y),
         (source_z, program_z), (source_a, program_a), (source_b, program_b),
         (source_bare, program_bare)]\<rparr>"

text \<open>
  Options with two chunks that build; with one chunk whose entry cannot be read; with a
  destination that is an array index, written second; and with the one chunk of \<^verbatim>\<open>m.js\<close>.
\<close>

definition options_two :: Options where
  "options_two = \<lparr>chunks = [(''x.out.js'', ''./x.js''), (''z.out.js'', ''./z.js'')], parent = baseUrl\<rparr>"

definition options_failing :: Options where
  "options_failing =
     \<lparr>chunks = [(''x.out.js'', ''./x.js''), (''missing.out.js'', ''./missing.js'')], parent = baseUrl\<rparr>"

definition options_index :: Options where
  "options_index = \<lparr>chunks = [(''b'', ''./x.js''), (''1'', ''./z.js'')], parent = baseUrl\<rparr>"

definition options_bare :: Options where
  "options_bare = \<lparr>chunks = [(''m.out.js'', ''./m.js'')], parent = baseUrl\<rparr>"

section \<open>Unused import declarations\<close>

lemma usedSpecifierOf_iff:
  "i \<in> set (usedSpecifierOf s) \<longleftrightarrow>
     (\<exists>n c name args. s = ExpressionStatement n (CallExpression c (Identifier i name) args))"
  by (induction s rule: usedSpecifierOf.induct) auto

lemma used_specifiers_iff:
  "(\<exists>u \<in> set (calculateUsedSpecifiersInModuleBody m). nodeToPlain m u = t) \<longleftrightarrow>
     (\<exists>s \<in> set (body (program m)). topLevelCallOf m t s)"
proof
  assume "\<exists>u \<in> set (calculateUsedSpecifiersInModuleBody m). nodeToPlain m u = t"
  then show "\<exists>s \<in> set (body (program m)). topLevelCallOf m t s"
    unfolding calculateUsedSpecifiersInModuleBody_def topLevelCallOf_def
    by (auto simp: usedSpecifierOf_iff) blast
next
  assume "\<exists>s \<in> set (body (program m)). topLevelCallOf m t s"
  then obtain n c i name args where
    s: "ExpressionStatement n (CallExpression c (Identifier i name) args) \<in> set (body (program m))"
    and t: "nodeToPlain m i = t"
    unfolding topLevelCallOf_def by blast
  have "i \<in> set (usedSpecifierOf (ExpressionStatement n (CallExpression c (Identifier i name) args)))"
    by simp
  with s have "i \<in> set (calculateUsedSpecifiersInModuleBody m)"
    unfolding calculateUsedSpecifiersInModuleBody_def by (simp only: set_concat set_map) blast
  with t show "\<exists>u \<in> set (calculateUsedSpecifiersInModuleBody m). nodeToPlain m u = t"
    by blast
qed

lemma anyUsed_iff:
  "anyUsed m (calculateUsedSpecifiersInModuleBody m) (importSpecifiersOf d) \<longleftrightarrow> \<not> unusedDeclaration m d"
proof -
  have "anyUsed m (calculateUsedSpecifiersInModuleBody m) (importSpecifiersOf d) \<longleftrightarrow>
        (\<exists>sp \<in> set (specifiers d). isNamedSpecifier sp \<and>
           (\<exists>u \<in> set (calculateUsedSpecifiersInModuleBody m).
              nodeToPlain m u = nodeToPlain m (specifierNode sp)))"
    by (auto simp: anyUsed_def importSpecifiersOf_def list_ex_iff)
  then show ?thesis
    by (simp add: unusedDeclaration_def used_specifiers_iff)
qed

text \<open>
  C1. \<^verbatim>\<open>calculateNotUsedImportDeclarations\<close> returns, in the order of the module body, the
  import declarations none of whose named specifiers has the text of the callee identifier
  of a call that is a top-level expression statement of the same body: an import
  declaration is in the result if and only if it is unused in that sense.
\<close>

theorem calculateNotUsedImportDeclarations_unused:
  "fst (calculateNotUsedImportDeclarations m) =
     filter (\<lambda>d. isImportDeclaration d \<and> unusedDeclaration m d) (body (program m))"
proof -
  have "fst (calculateNotUsedImportDeclarations m) =
        filter (\<lambda>d. \<not> anyUsed m (calculateUsedSpecifiersInModuleBody m) (importSpecifiersOf d))
          (calculateImportDeclarations m)"
    by (simp add: calculateNotUsedImportDeclarations_def calculateImportSpecifiersMap_def
        filter_map comp_def)
  also have "\<dots> = filter (\<lambda>d. unusedDeclaration m d) (calculateImportDeclarations m)"
    by (simp add: anyUsed_iff)
  also have "\<dots> = filter (\<lambda>d. isImportDeclaration d \<and> unusedDeclaration m d) (body (program m))"
    by (simp add: calculateImportDeclarations_def conj_commute)
  finally show ?thesis .
qed

lemma notUsed_abc:
  "fst (calculateNotUsedImportDeclarations module_abc) =
   [ImportDeclaration \<lparr>node_start = 42, node_end = 62\<rparr>
      [ImportSpecifier \<lparr>node_start = 50, node_end = 51\<rparr>
         (ImportedIdentifier \<lparr>node_start = 50, node_end = 51\<rparr> ''c'')]
      (StringValue ''C'')]"
  by (simp add: calculateNotUsedImportDeclarations_def calculateImportSpecifiersMap_def
      calculateImportDeclarations_def calculateUsedSpecifiersInModuleBody_def anyUsed_def
      importSpecifiersOf_def nodeToPlain_def slice_def module_abc_def moduleOf_def
      source_abc_def program_abc_def)

theorem calculateNotUsedImportDeclarations_unused_witness:
  "filter (\<lambda>d. isImportDeclaration d \<and> unusedDeclaration module_abc d)
     (body (program module_abc)) =
   [ImportDeclaration \<lparr>node_start = 42, node_end = 62\<rparr>
      [ImportSpecifier \<lparr>node_start = 50, node_end = 51\<rparr>
         (ImportedIdentifier \<lparr>node_start = 50, node_end = 51\<rparr> ''c'')]
      (StringValue ''C'')]"
  using calculateNotUsedImportDeclarations_unused [of module_abc] notUsed_abc by simp

section \<open>The edited source\<close>

lemma removeNodes_within:
  "list_all (\<lambda>n. node_start n \<le> node_end n \<and> node_end n \<le> length (original code)) nodes \<Longrightarrow>
   removeNodes code nodes =
     Inr (code\<lparr>removed := removed code \<union> {i. list_ex (\<lambda>n. inSpan n i) nodes}\<rparr>)"
proof (induction nodes arbitrary: code)
  case Nil
  then show ?case by simp
next
  case (Cons n nodes)
  let ?code' = "code\<lparr>removed := removed code \<union> {node_start n..<node_end n}\<rparr>"
  have step: "removeRange code (node_start n) (node_end n) = Inr ?code'"
    using Cons.prems by (auto simp: removeRange_def)
  have "removeNodes ?code' nodes =
      Inr (?code'\<lparr>removed := removed ?code' \<union> {i. list_ex (\<lambda>n. inSpan n i) nodes}\<rparr>)"
    using Cons.prems by (intro Cons.IH) simp
  moreover have "removed ?code' \<union> {i. list_ex (\<lambda>n. inSpan n i) nodes} =
      removed code \<union> {i. list_ex (\<lambda>n. inSpan n i) (n # nodes)}"
    by (auto simp: inSpan_def)
  ultimately show ?case using step by simp
qed

lemma toString_newMagicString: "toString (newMagicString text) = text"
  by (simp add: toString_def newMagicString_def map_nth)

lemma getCode_within:
  assumes "spansWithin (source m) nodes"
  shows "getCode m nodes = (Inr (withoutSpans (source m) nodes), m)"
proof (cases "nodes = []")
  case True
  then show ?thesis
    by (simp add: getCode_def toString_newMagicString withoutSpans_def keptOffsets_def map_nth)
next
  case False
  have "removeNodes (newMagicString (source m)) nodes =
      Inr ((newMagicString (source m))\<lparr>removed := removed (newMagicString (source m)) \<union> {i. list_ex (\<lambda>n. inSpan n i) nodes}\<rparr>)"
    using assms by (intro removeNodes_within) (simp add: spansWithin_def newMagicString_def)
  with False show ?thesis
    by (simp add: getCode_def toString_def newMagicString_def withoutSpans_def keptOffsets_def)
qed

lemma withoutSpans_set: "set nodes' = set nodes \<Longrightarrow> withoutSpans text nodes' = withoutSpans text nodes"
  by (simp add: withoutSpans_def keptOffsets_def list_ex_iff)

lemma spansWithin_set: "set nodes' = set nodes \<Longrightarrow> spansWithin text nodes' = spansWithin text nodes"
  by (simp add: spansWithin_def list_all_iff)

text \<open>
  C4. When the spans of the nodes to remove are spans of the source, \<^verbatim>\<open>getCode\<close> returns
  the source without the characters at the offsets of those spans: every other character
  is kept, in the order of the source. The result depends on the set of the nodes only,
  not on their order, and with no node to remove it is the source.
\<close>

theorem getCode_removes_spans:
  assumes "spansWithin (source m) nodes"
  shows "fst (getCode m nodes) = Inr (withoutSpans (source m) nodes) \<and>
         (\<forall>nodes'. set nodes' = set nodes \<longrightarrow> fst (getCode m nodes') = fst (getCode m nodes)) \<and>
         fst (getCode m []) = Inr (source m)"
proof (intro conjI allI impI)
  show "fst (getCode m nodes) = Inr (withoutSpans (source m) nodes)"
    using assms by (simp add: getCode_within)
next
  fix nodes' assume eq: "set nodes' = set nodes"
  have "spansWithin (source m) nodes'"
    using assms spansWithin_set [OF eq] by simp
  then show "fst (getCode m nodes') = fst (getCode m nodes)"
    using assms withoutSpans_set [OF eq] by (simp add: getCode_within)
next
  show "fst (getCode m []) = Inr (source m)"
    by (simp add: getCode_def toString_newMagicString)
qed

lemma withoutSpans_abc:
  \<open>withoutSpans source_abc
      [\<lparr>node_start = 42, node_end = 62\<rparr>, \<lparr>node_start = 0, node_end = 20\<rparr>] =
    ''\<newline>import {b} from "B";\<newline>\<newline>a();\<newline>b();\<newline>''\<close>
  by code_simp

lemma spansWithin_abc:
  "spansWithin source_abc
     [\<lparr>node_start = 42, node_end = 62\<rparr>, \<lparr>node_start = 0, node_end = 20\<rparr>]"
  by (simp add: spansWithin_def source_abc_def)

theorem getCode_removes_spans_witness:
  \<open>spansWithin (source module_abc)
      [\<lparr>node_start = 42, node_end = 62\<rparr>, \<lparr>node_start = 0, node_end = 20\<rparr>] \<and>
    fst (getCode module_abc
      [\<lparr>node_start = 42, node_end = 62\<rparr>, \<lparr>node_start = 0, node_end = 20\<rparr>]) =
      Inr ''\<newline>import {b} from "B";\<newline>\<newline>a();\<newline>b();\<newline>'' \<and>
    fst (getCode module_abc
      [\<lparr>node_start = 0, node_end = 20\<rparr>, \<lparr>node_start = 42, node_end = 62\<rparr>]) =
      Inr ''\<newline>import {b} from "B";\<newline>\<newline>a();\<newline>b();\<newline>'' \<and>
    fst (getCode module_abc []) = Inr source_abc\<close>
proof -
  have within: "spansWithin (source module_abc)
      [\<lparr>node_start = 42, node_end = 62\<rparr>, \<lparr>node_start = 0, node_end = 20\<rparr>]"
    using spansWithin_abc by (simp add: module_abc_def moduleOf_def)
  have src: "source module_abc = source_abc"
    by (simp add: module_abc_def moduleOf_def)
  have "set [\<lparr>node_start = 0, node_end = 20\<rparr>, \<lparr>node_start = 42, node_end = 62\<rparr>] =
        set [\<lparr>node_start = 42, node_end = 62\<rparr>, \<lparr>node_start = 0::nat, node_end = 20::nat\<rparr>]"
    by auto
  with getCode_removes_spans [OF within] within src withoutSpans_abc show ?thesis
    by (simp del: set_simps)
qed

section \<open>Declarations that are always unused\<close>

lemma notUsed_filter:
  "fst (calculateNotUsedImportDeclarations m) =
     filter (\<lambda>d. \<not> anyUsed m (calculateUsedSpecifiersInModuleBody m) (importSpecifiersOf d))
       (calculateImportDeclarations m)"
  by (simp add: calculateNotUsedImportDeclarations_def calculateImportSpecifiersMap_def
      filter_map comp_def)

lemma notUsed_set:
  "set (fst (calculateNotUsedImportDeclarations m)) =
     {d \<in> set (body (program m)). isImportDeclaration d \<and>
        \<not> anyUsed m (calculateUsedSpecifiersInModuleBody m) (importSpecifiersOf d)}"
  by (auto simp: notUsed_filter calculateImportDeclarations_def)

lemma notUsed_subset_body:
  "set (fst (calculateNotUsedImportDeclarations m)) \<subseteq> set (body (program m))"
  by (auto simp: notUsed_set)

lemma spansWithin_subset:
  "spansWithin text nodes \<Longrightarrow> set nodes' \<subseteq> set nodes \<Longrightarrow> spansWithin text nodes'"
  by (auto simp: spansWithin_def list_all_iff)

lemma keptOffsets_outside:
  "n \<in> set nodes \<Longrightarrow> i \<in> set (keptOffsets text nodes) \<Longrightarrow> \<not> inSpan n i"
  by (auto simp: keptOffsets_def list_ex_iff)

text \<open>
  C10. The text compared with the callees is the text of the span of the whole
  \<^verbatim>\<open>ImportSpecifier\<close> node. For an aliased import that text, \<^verbatim>\<open>a as b\<close>, has a character
  that no identifier has, so a declaration all of whose collected specifiers are aliased
  is among the unused declarations, also when \<^verbatim>\<open>a()\<close> or \<^verbatim>\<open>b()\<close> is a top-level statement.
\<close>

theorem aliased_specifier_unused:
  assumes "d \<in> set (body (program m))" and "isImportDeclaration d"
    and "\<forall>sp \<in> set (importSpecifiersOf d).
           \<exists>ch \<in> set (nodeToPlain m (specifierNode sp)). \<not> identifierChar ch"
    and "\<forall>u \<in> set (calculateUsedSpecifiersInModuleBody m).
           \<forall>ch \<in> set (nodeToPlain m u). identifierChar ch"
  shows "d \<in> set (fst (calculateNotUsedImportDeclarations m))"
proof -
  have "\<not> anyUsed m (calculateUsedSpecifiersInModuleBody m) (importSpecifiersOf d)"
    using assms(3,4) unfolding anyUsed_def list_ex_iff by metis
  with assms(1,2) show ?thesis by (simp add: notUsed_set)
qed

lemma texts_alias:
  "nodeToPlain module_alias \<lparr>node_start = 9, node_end = 15\<rparr> = ''a as b'' \<and>
   map (nodeToPlain module_alias) (calculateUsedSpecifiersInModuleBody module_alias) = [''a'', ''b'']"
  by (simp add: nodeToPlain_def slice_def calculateUsedSpecifiersInModuleBody_def
      module_alias_def moduleOf_def source_alias_def program_alias_def)

theorem aliased_specifier_unused_witness:
  "ImportDeclaration \<lparr>node_start = 0, node_end = 27\<rparr>
      [ImportSpecifier \<lparr>node_start = 9, node_end = 15\<rparr>
         (ImportedIdentifier \<lparr>node_start = 9, node_end = 10\<rparr> ''a'')] (StringValue ''m'')
     \<in> set (fst (calculateNotUsedImportDeclarations module_alias)) \<and>
   nodeToPlain module_alias \<lparr>node_start = 9, node_end = 15\<rparr> = ''a as b'' \<and>
   map (nodeToPlain module_alias) (calculateUsedSpecifiersInModuleBody module_alias) = [''a'', ''b'']"
proof -
  let ?d = "ImportDeclaration \<lparr>node_start = 0, node_end = 27\<rparr>
      [ImportSpecifier \<lparr>node_start = 9, node_end = 15\<rparr>
         (ImportedIdentifier \<lparr>node_start = 9, node_end = 10\<rparr> ''a'')] (StringValue ''m'')"
  have 1: "?d \<in> set (body (program module_alias))"
    by (simp add: module_alias_def moduleOf_def program_alias_def)
  have 2: "isImportDeclaration ?d" by simp
  have 3: "\<forall>sp \<in> set (importSpecifiersOf ?d).
      \<exists>ch \<in> set (nodeToPlain module_alias (specifierNode sp)). \<not> ch \<noteq> CHR '' ''"
    using texts_alias by (simp add: importSpecifiersOf_def)
  have "\<forall>t \<in> set (map (nodeToPlain module_alias) (calculateUsedSpecifiersInModuleBody module_alias)).
      \<forall>ch \<in> set t. ch \<noteq> CHR '' ''"
    using texts_alias by simp
  then have 4: "\<forall>u \<in> set (calculateUsedSpecifiersInModuleBody module_alias).
      \<forall>ch \<in> set (nodeToPlain module_alias u). ch \<noteq> CHR '' ''"
    by simp
  from aliased_specifier_unused [of ?d module_alias "\<lambda>ch. ch \<noteq> CHR '' ''", OF 1 2 3 4] texts_alias
  show ?thesis by blast
qed

section \<open>Reading a module changes nothing\<close>

lemma calculateNotUsedImportDeclarations_frame: "snd (calculateNotUsedImportDeclarations m) = m"
  by (simp add: calculateNotUsedImportDeclarations_def Let_def)

lemma getCode_frame: "snd (getCode m nodes) = m"
  by (simp add: getCode_def Let_def split: sum.split)

lemma removeUnusedImportsLoop_frame: "snd (removeUnusedImportsLoop entries acc) = entries"
proof (induction entries arbitrary: acc)
  case Nil
  then show ?case by simp
next
  case (Cons entry entries)
  obtain u m where entry: "entry = (u, m)" by (cases entry)
  obtain ds m1 where calc: "calculateNotUsedImportDeclarations m = (ds, m1)"
    by (cases "calculateNotUsedImportDeclarations m")
  then have m1: "m1 = m"
    using calculateNotUsedImportDeclarations_frame [of m] by simp
  obtain r m2 where code: "getCode m1 (map statementNode ds) = (r, m2)"
    by (cases "getCode m1 (map statementNode ds)")
  then have m2: "m2 = m"
    using getCode_frame [of m1 "map statementNode ds"] m1 by simp
  show ?case
  proof (cases r)
    case (Inl e)
    then show ?thesis using entry calc code m2 by simp
  next
    case (Inr str)
    then show ?thesis
      using entry calc code m2 Cons.IH [of "acc @ [(m2, str)]"]
      by (simp add: split_beta)
  qed
qed

lemma removeUnusedImports_frame: "snd (removeUnusedImports g) = g"
  by (simp add: removeUnusedImports_def split_beta removeUnusedImportsLoop_frame)

lemma Chunk_generate_frame: "snd (Chunk_generate c) = c"
  by (simp add: Chunk_generate_def split_beta removeUnusedImports_frame)

lemma generate_frame: "snd (generate cs) = cs"
proof (induction cs)
  case Nil
  then show ?case by simp
next
  case (Cons c cs)
  then show ?case
    using Chunk_generate_frame [of c]
    by (cases "Chunk_generate c") (simp add: split_beta split: sum.split)
qed

text \<open>
  C8. \<^verbatim>\<open>calculateNotUsedImportDeclarations\<close> and \<^verbatim>\<open>getCode\<close> leave the module as it was
  (its source and its program with it), so a second call of
  \<^verbatim>\<open>calculateNotUsedImportDeclarations\<close>, also after \<^verbatim>\<open>getCode\<close>, returns what the first
  returned; \<^verbatim>\<open>removeUnusedImports\<close> leaves the graph as it was and \<^verbatim>\<open>generate\<close> the chunks,
  and a second run of either returns what the first returned.
\<close>

theorem shake_idempotent_and_frame:
  "snd (calculateNotUsedImportDeclarations m) = m \<and>
   fst (calculateNotUsedImportDeclarations (snd (calculateNotUsedImportDeclarations m))) =
     fst (calculateNotUsedImportDeclarations m) \<and>
   snd (getCode m nodes) = m \<and>
   fst (calculateNotUsedImportDeclarations (snd (getCode m nodes))) =
     fst (calculateNotUsedImportDeclarations m) \<and>
   snd (removeUnusedImports g) = g \<and>
   fst (removeUnusedImports (snd (removeUnusedImports g))) = fst (removeUnusedImports g) \<and>
   snd (generate cs) = cs \<and>
   fst (generate (snd (generate cs))) = fst (generate cs)"
  by (simp add: calculateNotUsedImportDeclarations_frame getCode_frame
      removeUnusedImports_frame generate_frame)

section \<open>Building the graph of a cycle\<close>

lemma calculateDependencyPaths_importPaths:
  "calculateDependencyPaths m = importPaths (program m)"
  by (simp add: calculateDependencyPaths_def calculateImportDeclarations_def importPaths_def)

lemma initModule_loaded:
  assumes "resolveUrl w path (href par) = Some h" and "readFile w h = Some t"
    and "parse w t = Some p"
  shows "\<exists>m ms'. initModule w oid path par ms = Inr (m, ms') \<and> href (resolvedPath m) = h \<and>
           program m = p"
  using assms by (simp add: initModule_def initialize_def)

lemma initDependencies_no_error:
  assumes step: "\<And>oid path ms h e. resolveUrl w path (href par) = Some h \<Longrightarrow> h \<in> S \<Longrightarrow>
      initModuleRecursively n w oid path par ms \<noteq> Some (Inl e)"
    and "\<forall>d \<in> set paths. \<exists>h' \<in> S. resolveUrl w d (href par) = Some h'"
  shows "initDependencies n w oid k paths par ms \<noteq> Some (Inl e)"
  using assms(2)
proof (induction paths arbitrary: k ms e)
  case Nil
  then show ?case by simp
next
  case (Cons d paths)
  from Cons.prems obtain h' where h': "h' \<in> S" "resolveUrl w d (href par) = Some h'"
    by auto
  have first: "initModuleRecursively n w (oid @ [k]) d par ms \<noteq> Some (Inl e')" for e'
    using step [OF h'(2) h'(1)] .
  have rest: "initDependencies n w oid (Suc k) paths par ms' \<noteq> Some (Inl e')" for ms' e'
    using Cons.IH Cons.prems by simp
  show ?case
    using first rest by (auto split: option.splits sum.splits)
qed

lemma initModuleRecursively_no_error:
  assumes "loadsWithin w S"
  shows "resolveUrl w path (href par) = Some h \<Longrightarrow> h \<in> S \<Longrightarrow>
         initModuleRecursively n w oid path par ms \<noteq> Some (Inl e)"
proof (induction n arbitrary: oid path par ms h e)
  case 0
  then show ?case by simp
next
  case (Suc n)
  from assms Suc.prems(2) obtain t p where
    load: "readFile w h = Some t" "parse w t = Some p"
    and deps: "\<forall>d \<in> set (importPaths p). \<exists>h' \<in> S. resolveUrl w d h = Some h'"
    unfolding loadsWithin_def by blast
  from initModule_loaded [OF Suc.prems(1) load] obtain m ms' where
    m: "initModule w oid path par ms = Inr (m, ms')" "href (resolvedPath m) = h" "program m = p"
    by blast
  have "initDependencies n w oid 0 (calculateDependencyPaths m) (resolvedPath m) ms' \<noteq> Some (Inl e)"
  proof (rule initDependencies_no_error [where S = S])
    show "\<forall>d \<in> set (calculateDependencyPaths m). \<exists>h' \<in> S. resolveUrl w d (href (resolvedPath m)) = Some h'"
      using deps m by (simp add: calculateDependencyPaths_importPaths)
  next
    fix oid' path' ms'' h' e'
    assume "resolveUrl w path' (href (resolvedPath m)) = Some h'" and "h' \<in> S"
    then show "initModuleRecursively n w oid' path' (resolvedPath m) ms'' \<noteq> Some (Inl e')"
      by (rule Suc.IH)
  qed
  with m show ?case by simp
qed

lemma initDependencies_pending:
  assumes none: "\<And>oid path ms h. resolveUrl w path (href par) = Some h \<Longrightarrow> h \<in> T \<Longrightarrow>
      initModuleRecursively n w oid path par ms = None"
    and step: "\<And>oid path ms h e. resolveUrl w path (href par) = Some h \<Longrightarrow> h \<in> S \<Longrightarrow>
      initModuleRecursively n w oid path par ms \<noteq> Some (Inl e)"
    and "\<forall>d \<in> set paths. \<exists>h' \<in> S. resolveUrl w d (href par) = Some h'"
    and "\<exists>d \<in> set paths. \<exists>h' \<in> T. resolveUrl w d (href par) = Some h'"
  shows "initDependencies n w oid k paths par ms = None"
  using assms(3,4)
proof (induction paths arbitrary: k ms)
  case Nil
  then show ?case by simp
next
  case (Cons d paths)
  from Cons.prems(1) obtain h where h: "h \<in> S" "resolveUrl w d (href par) = Some h"
    by auto
  have closed: "\<forall>d \<in> set paths. \<exists>h' \<in> S. resolveUrl w d (href par) = Some h'"
    using Cons.prems(1) by simp
  have first: "initModuleRecursively n w (oid @ [k]) d par ms \<noteq> Some (Inl e)" for e
    using step [OF h(2) h(1)] .
  have rest: "initDependencies n w oid (Suc k) paths par ms' \<noteq> Some (Inl e)" for ms' e
    using step closed by (rule initDependencies_no_error)
  show ?case
  proof (cases "h \<in> T")
    case True
    then have "initModuleRecursively n w (oid @ [k]) d par ms = None"
      using none [OF h(2)] by simp
    then show ?thesis
      using rest [of ms] by (simp split: option.splits sum.splits)
  next
    case False
    then have "\<exists>d \<in> set paths. \<exists>h' \<in> T. resolveUrl w d (href par) = Some h'"
      using Cons.prems(2) h(2) by auto
    then have later: "initDependencies n w oid (Suc k) paths par ms' = None" for ms'
      using Cons.IH closed by simp
    show ?thesis
    proof (cases "initModuleRecursively n w (oid @ [k]) d par ms")
      case None
      then show ?thesis using later [of ms] by simp
    next
      case (Some r)
      then show ?thesis using first later by (cases r) simp_all
    qed
  qed
qed

lemma initModuleRecursively_pending:
  assumes "loadsWithin w S" and "importsWithin w T" and "T \<subseteq> S"
  shows "resolveUrl w path (href par) = Some h \<Longrightarrow> h \<in> T \<Longrightarrow>
         initModuleRecursively n w oid path par ms = None"
proof (induction n arbitrary: oid path par ms h)
  case 0
  then show ?case by simp
next
  case (Suc n)
  from assms(2) Suc.prems(2) obtain t p where
    load: "readFile w h = Some t" "parse w t = Some p"
    and cyc: "\<exists>d \<in> set (importPaths p). \<exists>h' \<in> T. resolveUrl w d h = Some h'"
    unfolding importsWithin_def by blast
  from assms(1,3) Suc.prems(2) load have
    deps: "\<forall>d \<in> set (importPaths p). \<exists>h' \<in> S. resolveUrl w d h = Some h'"
    unfolding loadsWithin_def by fastforce
  from initModule_loaded [OF Suc.prems(1) load] obtain m ms' where
    m: "initModule w oid path par ms = Inr (m, ms')" "href (resolvedPath m) = h" "program m = p"
    by blast
  have "initDependencies n w oid 0 (calculateDependencyPaths m) (resolvedPath m) ms' = None"
  proof (rule initDependencies_pending [where S = S and T = T])
    fix oid' path' ms'' h'
    assume "resolveUrl w path' (href (resolvedPath m)) = Some h'" and "h' \<in> T"
    then show "initModuleRecursively n w oid' path' (resolvedPath m) ms'' = None"
      by (rule Suc.IH)
  next
    fix oid' path' ms'' h' e
    assume "resolveUrl w path' (href (resolvedPath m)) = Some h'" and "h' \<in> S"
    then show "initModuleRecursively n w oid' path' (resolvedPath m) ms'' \<noteq> Some (Inl e)"
      by (rule initModuleRecursively_no_error [OF assms(1)])
  next
    show "\<forall>d \<in> set (calculateDependencyPaths m). \<exists>h' \<in> S. resolveUrl w d (href (resolvedPath m)) = Some h'"
      using deps m by (simp add: calculateDependencyPaths_importPaths)
  next
    show "\<exists>d \<in> set (calculateDependencyPaths m). \<exists>h' \<in> T. resolveUrl w d (href (resolvedPath m)) = Some h'"
      using cyc m by (simp add: calculateDependencyPaths_importPaths)
  qed
  with m show ?case by simp
qed

text \<open>
  C3. \<^verbatim>\<open>Graph.build\<close> has no guard against cycles and no error for them. When the modules
  of a set of locations all resolve, load and parse, their imports staying in the set, and
  the entry lies in a part of the set where every module imports a module of that part
  (the entry reaches a cycle), the build is pending at every depth of recursion: it never
  settles, with an error or without. The two theorems after it are the cycle of \<^verbatim>\<open>a.js\<close>
  and \<^verbatim>\<open>b.js\<close>.
\<close>

theorem Graph_build_cycle_pending:
  assumes "loadsWithin w S" and "importsWithin w T" and "T \<subseteq> S"
    and "resolveUrl w (graph_source g) (href (graph_parent g)) = Some h" and "h \<in> T"
  shows "Graph_build n w oid g = None"
  using initModuleRecursively_pending [OF assms(1-3) assms(4,5)]
  by (simp add: Graph_build_def)

lemma world_a:
  "readFile exampleWorld ''file:///a.js'' = Some source_a"
  "parse exampleWorld source_a = Some program_a"
  "importPaths program_a = [''./b.js'']"
  "resolveUrl exampleWorld ''./b.js'' h = Some ''file:///b.js''"
  by (simp_all add: exampleWorld_def importPaths_def program_a_def source_a_def source_e_def
      source_x_def source_y_def source_z_def)

lemma world_b:
  "readFile exampleWorld ''file:///b.js'' = Some source_b"
  "parse exampleWorld source_b = Some program_b"
  "importPaths program_b = [''./a.js'']"
  "resolveUrl exampleWorld ''./a.js'' h = Some ''file:///a.js''"
  by (simp_all add: exampleWorld_def importPaths_def program_b_def source_b_def source_a_def
      source_e_def source_x_def source_y_def source_z_def)

lemma cycle_loadsWithin: "loadsWithin exampleWorld {''file:///a.js'', ''file:///b.js''}"
  unfolding loadsWithin_def
proof
  fix h :: string
  assume "h \<in> {''file:///a.js'', ''file:///b.js''}"
  then consider "h = ''file:///a.js''" | "h = ''file:///b.js''" by blast
  then show "\<exists>t p. readFile exampleWorld h = Some t \<and> parse exampleWorld t = Some p \<and>
      (\<forall>d \<in> set (importPaths p).
         \<exists>h' \<in> {''file:///a.js'', ''file:///b.js''}. resolveUrl exampleWorld d h = Some h')"
  proof cases
    case 1
    show ?thesis
      by (rule exI [of _ source_a], rule exI [of _ program_a]) (simp add: 1 world_a)
  next
    case 2
    show ?thesis
      by (rule exI [of _ source_b], rule exI [of _ program_b]) (simp add: 2 world_b)
  qed
qed

lemma cycle_importsWithin: "importsWithin exampleWorld {''file:///a.js'', ''file:///b.js''}"
  unfolding importsWithin_def
proof
  fix h :: string
  assume "h \<in> {''file:///a.js'', ''file:///b.js''}"
  then consider "h = ''file:///a.js''" | "h = ''file:///b.js''" by blast
  then show "\<exists>t p. readFile exampleWorld h = Some t \<and> parse exampleWorld t = Some p \<and>
      (\<exists>d \<in> set (importPaths p).
         \<exists>h' \<in> {''file:///a.js'', ''file:///b.js''}. resolveUrl exampleWorld d h = Some h')"
  proof cases
    case 1
    show ?thesis
      by (rule exI [of _ source_a], rule exI [of _ program_a]) (simp add: 1 world_a)
  next
    case 2
    show ?thesis
      by (rule exI [of _ source_b], rule exI [of _ program_b]) (simp add: 2 world_b)
  qed
qed

lemma cycle_entry:
  "resolveUrl exampleWorld (graph_source (newGraph ''./a.js'' baseUrl))
     (href (graph_parent (newGraph ''./a.js'' baseUrl))) = Some ''file:///a.js''"
  by (simp add: world_b newGraph_def)

theorem Graph_build_cycle_counterexample:
  "\<forall>n. Graph_build n exampleWorld [0] (newGraph ''./a.js'' baseUrl) = None"
proof
  fix n
  have "initModuleRecursively n exampleWorld [0] ''./a.js'' baseUrl [] = None"
    by (rule initModuleRecursively_pending
        [OF cycle_loadsWithin cycle_importsWithin subset_refl, of _ _ "''file:///a.js''"])
      (simp_all add: world_b baseUrl_def)
  then show "Graph_build n exampleWorld [0] (newGraph ''./a.js'' baseUrl) = None"
    by (simp add: Graph_build_def newGraph_def)
qed

theorem Graph_build_cycle_pending_witness:
  "loadsWithin exampleWorld {''file:///a.js'', ''file:///b.js''} \<and>
   importsWithin exampleWorld {''file:///a.js'', ''file:///b.js''} \<and>
   Graph_build 7 exampleWorld [0] (newGraph ''./a.js'' baseUrl) = None"
  using Graph_build_cycle_pending
    [OF cycle_loadsWithin cycle_importsWithin subset_refl cycle_entry, of 7 "[0]"]
    cycle_loadsWithin cycle_importsWithin
  by blast

section \<open>The public function\<close>

lemma length_objectEntries: "length (objectEntries properties) = length properties"
proof -
  have "length (filter (\<lambda>(key, v). isArrayIndex key) properties) +
        length (filter (\<lambda>(key, v). \<not> isArrayIndex key) properties) = length properties"
    using sum_length_filter_compl [of "\<lambda>(key, v). isArrayIndex key" properties]
    by (simp add: case_prod_unfold)
  then show ?thesis by (simp add: objectEntries_def)
qed

lemma objectEntries_declared:
  assumes "\<forall>key \<in> set (map fst properties). \<not> isArrayIndex key"
  shows "objectEntries properties = properties"
proof -
  have "filter (\<lambda>(key, v). isArrayIndex key) properties = []"
    using assms by (auto simp: filter_empty_conv)
  moreover have "filter (\<lambda>(key, v). \<not> isArrayIndex key) properties = properties"
    using assms by (auto simp: filter_id_conv)
  ultimately show ?thesis by (simp add: objectEntries_def)
qed

lemma pushChunks_build:
  "k < length entries \<Longrightarrow>
   Chunk_build n w [k] (pushChunks base entries ! k) = buildChunk n w base (k, entries ! k)"
  by (simp add: pushChunks_def buildChunk_def case_prod_unfold)

lemma awaitBuilds_fulfilled_only:
  assumes "distinct schedule" and "\<forall>i \<in> set schedule. i < length cs"
    and "awaitBuilds n w schedule cs = Some (Inr cs')"
  shows "length cs' = length cs \<and>
         (\<forall>i \<in> set schedule. Chunk_build n w [i] (cs ! i) = Some (Inr (cs' ! i))) \<and>
         (\<forall>i < length cs. i \<notin> set schedule \<longrightarrow> cs' ! i = cs ! i)"
  using assms
proof (induction schedule arbitrary: cs)
  case Nil
  then show ?case by simp
next
  case (Cons j schedule)
  from Cons.prems(3) obtain c where
    c: "Chunk_build n w [j] (cs ! j) = Some (Inr c)"
    and rest: "awaitBuilds n w schedule (cs[j := c]) = Some (Inr cs')"
    by (auto split: option.splits sum.splits)
  have j: "j < length cs" "j \<notin> set schedule"
    using Cons.prems(1,2) by simp_all
  have "distinct schedule" and "\<forall>i \<in> set schedule. i < length (cs[j := c])"
    using Cons.prems(1,2) by simp_all
  from Cons.IH [OF this rest] have
    len: "length cs' = length cs"
    and built: "\<forall>i \<in> set schedule. Chunk_build n w [i] (cs[j := c] ! i) = Some (Inr (cs' ! i))"
    and others: "\<forall>i < length cs. i \<notin> set schedule \<longrightarrow> cs' ! i = cs[j := c] ! i"
    by simp_all
  have "cs' ! j = c"
    using others j by simp
  then have head: "Chunk_build n w [j] (cs ! j) = Some (Inr (cs' ! j))"
    using c by simp
  have tail: "\<forall>i \<in> set schedule. Chunk_build n w [i] (cs ! i) = Some (Inr (cs' ! i))"
  proof
    fix i assume i: "i \<in> set schedule"
    then have "i \<noteq> j" using j by auto
    then have "cs[j := c] ! i = cs ! i" by simp
    with built i show "Chunk_build n w [i] (cs ! i) = Some (Inr (cs' ! i))" by auto
  qed
  have rest': "\<forall>i < length cs. i \<notin> set (j # schedule) \<longrightarrow> cs' ! i = cs ! i"
    using others by auto
  from len head tail rest' show ?case by simp
qed

lemma awaitBuilds_fulfilled_if:
  assumes "distinct schedule" and "\<forall>i \<in> set schedule. i < length cs"
    and "\<forall>i \<in> set schedule. \<exists>c. Chunk_build n w [i] (cs ! i) = Some (Inr c)"
  shows "\<exists>cs'. awaitBuilds n w schedule cs = Some (Inr cs')"
  using assms
proof (induction schedule arbitrary: cs)
  case Nil
  then show ?case by simp
next
  case (Cons j schedule)
  from Cons.prems(3) obtain c where c: "Chunk_build n w [j] (cs ! j) = Some (Inr c)"
    by auto
  have j: "j \<notin> set schedule" using Cons.prems(1) by simp
  have "\<forall>i \<in> set schedule. \<exists>c'. Chunk_build n w [i] (cs[j := c] ! i) = Some (Inr c')"
  proof
    fix i assume i: "i \<in> set schedule"
    then have "i \<noteq> j" using j by auto
    then have "cs[j := c] ! i = cs ! i" by simp
    with Cons.prems(3) i show "\<exists>c'. Chunk_build n w [i] (cs[j := c] ! i) = Some (Inr c')"
      by auto
  qed
  moreover have "distinct schedule" and "\<forall>i \<in> set schedule. i < length (cs[j := c])"
    using Cons.prems(1,2) by simp_all
  ultimately have "\<exists>cs'. awaitBuilds n w schedule (cs[j := c]) = Some (Inr cs')"
    using Cons.IH by blast
  with c show ?case by simp
qed

lemma awaitBuilds_rejected:
  assumes "distinct schedule" and "i \<in> set schedule"
    and "Chunk_build n w [i] (cs ! i) = Some (Inl e)"
  shows "\<exists>e'. awaitBuilds n w schedule cs = Some (Inl e')"
  using assms
proof (induction schedule arbitrary: cs)
  case Nil
  then show ?case by simp
next
  case (Cons j schedule)
  show ?case
  proof (cases "Chunk_build n w [j] (cs ! j)")
    case None
    then have "i \<noteq> j" using Cons.prems(3) by auto
    then have "i \<in> set schedule" using Cons.prems(2) by simp
    then obtain e' where "awaitBuilds n w schedule cs = Some (Inl e')"
      using Cons.IH Cons.prems(1,3) by fastforce
    with None show ?thesis by simp
  next
    case (Some r)
    show ?thesis
    proof (cases r)
      case (Inl e')
      with Some show ?thesis by simp
    next
      case (Inr c)
      with Some have "i \<noteq> j" using Cons.prems(3) by auto
      then have i: "i \<in> set schedule" and same: "cs[j := c] ! i = cs ! i"
        using Cons.prems(2) by simp_all
      have "Chunk_build n w [i] (cs[j := c] ! i) = Some (Inl e)"
        using Cons.prems(3) same by simp
      then obtain e' where "awaitBuilds n w schedule (cs[j := c]) = Some (Inl e')"
        using Cons.IH i Cons.prems(1) by fastforce
      with Some Inr show ?thesis by simp
    qed
  qed
qed

lemma treeShaker_rejected:
  assumes "validSchedule schedule (length (chunks options))"
    and "k < length (objectEntries (chunks options))"
    and "buildChunk n w (parent options) (k, objectEntries (chunks options) ! k) = Some (Inl e)"
  shows "\<exists>e'. treeShaker n w schedule options = Some (Inl e')"
proof -
  let ?entries = "objectEntries (chunks options)"
  have k: "k < length (chunks options)"
    using assms(2) by (simp add: length_objectEntries)
  have "distinct schedule" and "k \<in> set schedule"
    using assms(1) k by (simp_all add: validSchedule_def)
  moreover have "Chunk_build n w [k] (pushChunks (parent options) ?entries ! k) = Some (Inl e)"
    using assms(2,3) by (simp add: pushChunks_build)
  ultimately show ?thesis
    unfolding treeShaker_def by (rule awaitBuilds_rejected)
qed

lemma treeShaker_fulfilled:
  assumes "validSchedule schedule (length (chunks options))"
  shows "treeShaker n w schedule options = Some (Inr cs) \<longleftrightarrow>
     length cs = length (objectEntries (chunks options)) \<and>
     (\<forall>k < length (objectEntries (chunks options)).
        buildChunk n w (parent options) (k, objectEntries (chunks options) ! k) =
          Some (Inr (cs ! k)))"
proof -
  let ?entries = "objectEntries (chunks options)"
  let ?pushed = "pushChunks (parent options) ?entries"
  have len: "length ?pushed = length ?entries" "length ?entries = length (chunks options)"
    by (simp_all add: pushChunks_def length_objectEntries)
  have sched: "distinct schedule" "set schedule = {0..<length ?pushed}"
    using assms len by (simp_all add: validSchedule_def)
  then have range: "\<forall>i \<in> set schedule. i < length ?pushed" by simp
  have build: "Chunk_build n w [k] (?pushed ! k) = buildChunk n w (parent options) (k, ?entries ! k)"
    if "k < length ?entries" for k
    using that by (rule pushChunks_build)
  show ?thesis
  proof
    assume "treeShaker n w schedule options = Some (Inr cs)"
    then have "awaitBuilds n w schedule ?pushed = Some (Inr cs)"
      by (simp add: treeShaker_def)
    from awaitBuilds_fulfilled_only [OF sched(1) range this] sched(2) len build
    show "length cs = length ?entries \<and>
        (\<forall>k < length ?entries.
           buildChunk n w (parent options) (k, ?entries ! k) = Some (Inr (cs ! k)))"
      by simp
  next
    assume cs: "length cs = length ?entries \<and>
        (\<forall>k < length ?entries.
           buildChunk n w (parent options) (k, ?entries ! k) = Some (Inr (cs ! k)))"
    then have "\<forall>i \<in> set schedule. \<exists>c. Chunk_build n w [i] (?pushed ! i) = Some (Inr c)"
      using sched(2) len build by simp
    from awaitBuilds_fulfilled_if [OF sched(1) range this] obtain cs' where
      cs': "awaitBuilds n w schedule ?pushed = Some (Inr cs')"
      by blast
    from awaitBuilds_fulfilled_only [OF sched(1) range cs'] sched(2) len build have
      "length cs' = length ?entries"
      "\<forall>k < length ?entries.
         buildChunk n w (parent options) (k, ?entries ! k) = Some (Inr (cs' ! k))"
      by simp_all
    with cs have "cs' = cs"
      by (auto simp: list_eq_iff_nth_eq)
    with cs' show "treeShaker n w schedule options = Some (Inr cs)"
      by (simp add: treeShaker_def)
  qed
qed

lemma Chunk_build_fields:
  "Chunk_build n w oid c = Some (Inr c') \<Longrightarrow>
   chunk_source c' = chunk_source c \<and> chunk_destination c' = chunk_destination c"
  by (auto simp: Chunk_build_def split: option.splits sum.splits)

lemma buildChunk_fields:
  "buildChunk n w base (k, entry) = Some (Inr c) \<Longrightarrow>
   chunk_destination c = fst entry \<and> chunk_source c = snd entry"
  by (cases entry) (auto simp: buildChunk_def newChunk_def dest: Chunk_build_fields)

lemma generate_codes:
  "fst (generate cs) = Inr codes \<Longrightarrow>
   length codes = length cs \<and> (\<forall>k < length cs. fst (Chunk_generate (cs ! k)) = Inr (codes ! k))"
proof (induction cs arbitrary: codes)
  case Nil
  then show ?case by simp
next
  case (Cons c cs)
  from Cons.prems obtain code codes' where
    c: "fst (Chunk_generate c) = Inr code" and rest: "fst (generate cs) = Inr codes'"
    and codes: "codes = code # codes'"
    by (auto simp: split_beta split: sum.splits)
  from Cons.IH [OF rest] c codes show ?case
    by (auto simp: nth_Cons split: nat.splits)
qed

lemma generate_total:
  "(\<forall>k < length cs. \<exists>code. fst (Chunk_generate (cs ! k)) = Inr code) \<Longrightarrow>
   \<exists>codes. fst (generate cs) = Inr codes"
proof (induction cs)
  case Nil
  then show ?case by simp
next
  case (Cons c cs)
  from Cons.prems have "\<exists>code. fst (Chunk_generate ((c # cs) ! 0)) = Inr code" by blast
  then obtain code where c: "fst (Chunk_generate c) = Inr code" by auto
  have "\<forall>k < length cs. \<exists>code. fst (Chunk_generate (cs ! k)) = Inr code"
    using Cons.prems by fastforce
  then obtain codes where "fst (generate cs) = Inr codes" using Cons.IH by blast
  with c show ?case by (simp add: split_beta)
qed

text \<open>
  C7. Whatever the order in which the builds settle, when \<^verbatim>\<open>treeShaker\<close> returns its handle
  the chunks of the handle are the chunks built from the entries that \<^verbatim>\<open>Object.entries\<close>
  lists for \<^verbatim>\<open>options.chunks\<close>, in that order: the \<open>k\<close>-th has the destination and the source
  of the \<open>k\<close>-th entry. When \<^verbatim>\<open>generate\<close> returns, it returns as many texts as there are
  entries, the \<open>k\<close>-th being the text that the \<open>k\<close>-th chunk generates; and it returns when
  every chunk generates a text. That order is the order in which the chunks are declared
  when no destination is an array index.
\<close>

theorem generate_in_entries_order:
  assumes "validSchedule schedule (length (chunks options))"
    and "treeShaker n w schedule options = Some (Inr cs)"
  shows "length cs = length (objectEntries (chunks options)) \<and>
         (\<forall>k < length (objectEntries (chunks options)).
            buildChunk n w (parent options) (k, objectEntries (chunks options) ! k) =
              Some (Inr (cs ! k)) \<and>
            chunk_destination (cs ! k) = fst (objectEntries (chunks options) ! k) \<and>
            chunk_source (cs ! k) = snd (objectEntries (chunks options) ! k)) \<and>
         (\<forall>codes. fst (generate cs) = Inr codes \<longrightarrow>
            length codes = length (objectEntries (chunks options)) \<and>
            (\<forall>k < length (objectEntries (chunks options)).
               fst (Chunk_generate (cs ! k)) = Inr (codes ! k))) \<and>
         ((\<forall>k < length (objectEntries (chunks options)).
             \<exists>code. fst (Chunk_generate (cs ! k)) = Inr code) \<longrightarrow>
            (\<exists>codes. fst (generate cs) = Inr codes)) \<and>
         ((\<forall>key \<in> set (map fst (chunks options)). \<not> isArrayIndex key) \<longrightarrow>
            objectEntries (chunks options) = chunks options)"
proof -
  let ?entries = "objectEntries (chunks options)"
  from assms have len: "length cs = length ?entries"
    and built: "\<forall>k < length ?entries.
        buildChunk n w (parent options) (k, ?entries ! k) = Some (Inr (cs ! k))"
    by (simp_all add: treeShaker_fulfilled)
  have fields: "\<forall>k < length ?entries.
      buildChunk n w (parent options) (k, ?entries ! k) = Some (Inr (cs ! k)) \<and>
      chunk_destination (cs ! k) = fst (?entries ! k) \<and>
      chunk_source (cs ! k) = snd (?entries ! k)"
    using built buildChunk_fields by blast
  have codes: "\<forall>codes. fst (generate cs) = Inr codes \<longrightarrow>
      length codes = length ?entries \<and>
      (\<forall>k < length ?entries. fst (Chunk_generate (cs ! k)) = Inr (codes ! k))"
    using generate_codes [of cs] len by simp
  have total: "(\<forall>k < length ?entries. \<exists>code. fst (Chunk_generate (cs ! k)) = Inr code) \<longrightarrow>
      (\<exists>codes. fst (generate cs) = Inr codes)"
    using generate_total [of cs] len by simp
  have declared: "(\<forall>key \<in> set (map fst (chunks options)). \<not> isArrayIndex key) \<longrightarrow>
      ?entries = chunks options"
    using objectEntries_declared by blast
  show ?thesis
    by (intro conjI len fields codes total declared)
qed

text \<open>
  C6. Whatever the order in which the builds settle, a chunk whose build is rejected
  rejects \<^verbatim>\<open>treeShaker\<close>: \<^verbatim>\<open>Promise.all\<close> is rejected, no handle is returned, and so no text
  is generated for any chunk, the siblings included. A handle is returned exactly when
  the build of every chunk is fulfilled.
\<close>

theorem build_failure_rejects_all:
  assumes "validSchedule schedule (length (chunks options))"
  shows
  "((\<exists>k < length (objectEntries (chunks options)). \<exists>e.
       buildChunk n w (parent options) (k, objectEntries (chunks options) ! k) = Some (Inl e)) \<longrightarrow>
      (\<exists>e. treeShaker n w schedule options = Some (Inl e))) \<and>
   ((\<exists>cs. treeShaker n w schedule options = Some (Inr cs)) \<longleftrightarrow>
      (\<forall>k < length (objectEntries (chunks options)). \<exists>c.
         buildChunk n w (parent options) (k, objectEntries (chunks options) ! k) = Some (Inr c)))"
proof (intro conjI impI iffI)
  let ?entries = "objectEntries (chunks options)"
  assume "\<exists>k < length ?entries. \<exists>e.
      buildChunk n w (parent options) (k, ?entries ! k) = Some (Inl e)"
  then show "\<exists>e. treeShaker n w schedule options = Some (Inl e)"
    using treeShaker_rejected [OF assms] by blast
next
  let ?entries = "objectEntries (chunks options)"
  assume "\<exists>cs. treeShaker n w schedule options = Some (Inr cs)"
  then show "\<forall>k < length ?entries. \<exists>c.
      buildChunk n w (parent options) (k, ?entries ! k) = Some (Inr c)"
    using treeShaker_fulfilled [OF assms] by blast
next
  let ?entries = "objectEntries (chunks options)"
  assume all: "\<forall>k < length ?entries. \<exists>c.
      buildChunk n w (parent options) (k, ?entries ! k) = Some (Inr c)"
  define cs where "cs = map (\<lambda>k. projr (the (buildChunk n w (parent options) (k, ?entries ! k))))
      [0..<length ?entries]"
  have "length cs = length ?entries" by (simp add: cs_def)
  moreover have "\<forall>k < length ?entries.
      buildChunk n w (parent options) (k, ?entries ! k) = Some (Inr (cs ! k))"
    using all by (auto simp: cs_def)
  ultimately have "treeShaker n w schedule options = Some (Inr cs)"
    by (simp add: treeShaker_fulfilled [OF assms])
  then show "\<exists>cs. treeShaker n w schedule options = Some (Inr cs)" by blast
qed

section \<open>The generated output\<close>

lemma spansWithin_unused:
  assumes "spansWithinModule m"
  shows "spansWithin (source m) (map statementNode (fst (calculateNotUsedImportDeclarations m)))"
proof -
  have "set (map statementNode (fst (calculateNotUsedImportDeclarations m))) \<subseteq>
        set (map statementNode (body (program m)))"
    using notUsed_subset_body [of m] by (simp only: set_map image_mono)
  then show ?thesis
    using assms unfolding spansWithinModule_def by (rule spansWithin_subset [rotated])
qed

lemma getCode_unused:
  assumes "spansWithinModule m"
  shows "getCode m (map statementNode (fst (calculateNotUsedImportDeclarations m))) =
           (Inr (editedSource m), m)"
  using spansWithin_unused [OF assms] by (simp add: getCode_within editedSource_def)

lemma removeUnusedImportsLoop_edited:
  "list_all (\<lambda>(u, m). spansWithinModule m) entries \<Longrightarrow>
   fst (removeUnusedImportsLoop entries acc) =
     Inr (acc @ map (\<lambda>(u, m). (m, editedSource m)) entries)"
proof (induction entries arbitrary: acc)
  case Nil
  then show ?case by simp
next
  case (Cons entry entries)
  obtain u m where entry: "entry = (u, m)" by (cases entry)
  have m: "spansWithinModule m" and rest: "list_all (\<lambda>(u, m). spansWithinModule m) entries"
    using Cons.prems entry by simp_all
  obtain ds where calc: "calculateNotUsedImportDeclarations m = (ds, m)"
    using calculateNotUsedImportDeclarations_frame [of m]
    by (cases "calculateNotUsedImportDeclarations m") simp
  then have code: "getCode m (map statementNode ds) = (Inr (editedSource m), m)"
    using getCode_unused [OF m] by simp
  show ?case
    using entry calc code Cons.IH [OF rest, of "acc @ [(m, editedSource m)]"]
    by (simp add: split_beta)
qed

lemma removeUnusedImports_edited:
  "spansWithinGraph g \<Longrightarrow>
   fst (removeUnusedImports g) = Inr (map (\<lambda>(u, m). (m, editedSource m)) (modules g))"
  using removeUnusedImportsLoop_edited [of "modules g" "[]"]
  by (simp add: removeUnusedImports_def spansWithinGraph_def split_beta)

lemma Chunk_generate_edited:
  "spansWithinGraph (graph c) \<Longrightarrow> modules (graph c) = (u, m) # rest \<Longrightarrow>
   fst (Chunk_generate c) = Inr (editedSource m)"
  using removeUnusedImports_edited [of "graph c"]
  by (simp add: Chunk_generate_def split_beta)

text \<open>
  C9. An import declaration of the body for which no named specifier is collected (an
  import for its side effects, of a default only, or of a namespace only) is among the
  unused declarations, whatever the body calls. The edited source of the module keeps no
  offset of the declaration's span; and when the spans of the statements are spans of the
  sources, that edited source is the text that \<^verbatim>\<open>removeUnusedImports\<close> returns for the module,
  the text that \<^verbatim>\<open>Chunk.generate\<close> returns for a chunk whose entry module it is, and the
  text that \<^verbatim>\<open>generate\<close> returns for that chunk.
\<close>

theorem no_named_specifier_removed:
  assumes "d \<in> set (body (program m))" and "isImportDeclaration d"
    and "importSpecifiersOf d = []"
  shows "d \<in> set (fst (calculateNotUsedImportDeclarations m)) \<and>
         editedSource m =
           map (\<lambda>i. source m ! i)
             (keptOffsets (source m)
                (map statementNode (fst (calculateNotUsedImportDeclarations m)))) \<and>
         (\<forall>i \<in> set (keptOffsets (source m)
                        (map statementNode (fst (calculateNotUsedImportDeclarations m)))).
            \<not> inSpan (statementNode d) i) \<and>
         (spansWithinGraph g \<longrightarrow> k < length (modules g) \<longrightarrow> snd (modules g ! k) = m \<longrightarrow>
            (\<exists>out. fst (removeUnusedImports g) = Inr out \<and> length out = length (modules g) \<and>
               out ! k = (m, editedSource m))) \<and>
         (spansWithinGraph (graph c) \<longrightarrow> modules (graph c) = (u, m) # rest \<longrightarrow>
            fst (Chunk_generate c) = Inr (editedSource m)) \<and>
         (j < length cs \<longrightarrow> spansWithinGraph (graph (cs ! j)) \<longrightarrow>
            modules (graph (cs ! j)) = (u, m) # rest \<longrightarrow>
            (\<forall>codes. fst (generate cs) = Inr codes \<longrightarrow> codes ! j = editedSource m) \<and>
            ((\<forall>i < length cs. \<exists>code. fst (Chunk_generate (cs ! i)) = Inr code) \<longrightarrow>
               (\<exists>codes. fst (generate cs) = Inr codes \<and> codes ! j = editedSource m)))"
proof (intro conjI impI allI)
  let ?unused = "fst (calculateNotUsedImportDeclarations m)"
  show unused: "d \<in> set ?unused"
    using assms by (simp add: notUsed_set anyUsed_def)
  show "editedSource m = map (\<lambda>i. source m ! i) (keptOffsets (source m) (map statementNode ?unused))"
    by (simp add: editedSource_def withoutSpans_def)
  have "statementNode d \<in> set (map statementNode ?unused)"
    using unused by simp
  then show "\<forall>i \<in> set (keptOffsets (source m) (map statementNode ?unused)).
      \<not> inSpan (statementNode d) i"
    using keptOffsets_outside by blast
next
  assume g: "spansWithinGraph g" and k: "k < length (modules g)" "snd (modules g ! k) = m"
  let ?out = "map (\<lambda>(u, m). (m, editedSource m)) (modules g)"
  have "fst (removeUnusedImports g) = Inr ?out"
    using g by (rule removeUnusedImports_edited)
  moreover have "length ?out = length (modules g)" by simp
  moreover have "?out ! k = (m, editedSource m)"
    using k by (simp add: split_beta)
  ultimately show "\<exists>out. fst (removeUnusedImports g) = Inr out \<and>
      length out = length (modules g) \<and> out ! k = (m, editedSource m)"
    by blast
next
  assume "spansWithinGraph (graph c)" and "modules (graph c) = (u, m) # rest"
  then show "fst (Chunk_generate c) = Inr (editedSource m)"
    by (rule Chunk_generate_edited)
next
  fix codes
  assume j: "j < length cs" and "spansWithinGraph (graph (cs ! j))"
    and "modules (graph (cs ! j)) = (u, m) # rest"
  then have one: "fst (Chunk_generate (cs ! j)) = Inr (editedSource m)"
    by (simp add: Chunk_generate_edited)
  assume "fst (generate cs) = Inr codes"
  then have "fst (Chunk_generate (cs ! j)) = Inr (codes ! j)"
    using generate_codes [of cs codes] j by simp
  with one show "codes ! j = editedSource m" by simp
next
  assume j: "j < length cs" and "spansWithinGraph (graph (cs ! j))"
    and "modules (graph (cs ! j)) = (u, m) # rest"
  then have one: "fst (Chunk_generate (cs ! j)) = Inr (editedSource m)"
    by (simp add: Chunk_generate_edited)
  assume "\<forall>i < length cs. \<exists>code. fst (Chunk_generate (cs ! i)) = Inr code"
  then obtain codes where codes: "fst (generate cs) = Inr codes"
    using generate_total [of cs] by blast
  then have "fst (Chunk_generate (cs ! j)) = Inr (codes ! j)"
    using generate_codes [of cs codes] j by simp
  with one codes show "\<exists>codes. fst (generate cs) = Inr codes \<and> codes ! j = editedSource m"
    by simp
qed

lemma notUsed_bare:
  "fst (calculateNotUsedImportDeclarations module_bare) =
     [ImportDeclaration \<lparr>node_start = 0, node_end = 16\<rparr> [] (StringValue ''./z.js''),
      ImportDeclaration \<lparr>node_start = 17, node_end = 40\<rparr>
        [ImportDefaultSpecifier \<lparr>node_start = 24, node_end = 25\<rparr>] (StringValue ''./z.js''),
      ImportDeclaration \<lparr>node_start = 41, node_end = 69\<rparr>
        [ImportNamespaceSpecifier \<lparr>node_start = 48, node_end = 54\<rparr>] (StringValue ''./z.js'')]"
  by code_simp

lemma editedSource_bare: \<open>editedSource module_bare = ''\<newline>\<newline>\<newline>d();\<newline>''\<close>
  by code_simp

lemma bare_eval:
  "(case treeShaker 2 exampleWorld [0] options_bare of
      Some (Inr [c]) \<Rightarrow>
        (case modules (graph c) of
           (u, m) # rest \<Rightarrow> m = module_bare \<and> spansWithinGraph (graph c)
         | _ \<Rightarrow> False)
    | _ \<Rightarrow> False)"
  by code_simp

theorem no_named_specifier_removed_witness:
  \<open>importSpecifiersOf (ImportDeclaration \<lparr>node_start = 17, node_end = 40\<rparr>
        [ImportDefaultSpecifier \<lparr>node_start = 24, node_end = 25\<rparr>] (StringValue ''./z.js'')) = [] \<and>
    ImportDeclaration \<lparr>node_start = 17, node_end = 40\<rparr>
        [ImportDefaultSpecifier \<lparr>node_start = 24, node_end = 25\<rparr>] (StringValue ''./z.js'')
      \<in> set (fst (calculateNotUsedImportDeclarations module_bare)) \<and>
    source module_bare =
      ''import "./z.js";\<newline>import d from "./z.js";\<newline>import * as n from "./z.js";\<newline>d();\<newline>'' \<and>
    (\<exists>c codes. treeShaker 2 exampleWorld [0] options_bare = Some (Inr [c]) \<and>
       fst (Chunk_generate c) = Inr ''\<newline>\<newline>\<newline>d();\<newline>'' \<and>
       fst (generate [c]) = Inr codes \<and> codes ! 0 = ''\<newline>\<newline>\<newline>d();\<newline>'')\<close>
proof -
  let ?d = "ImportDeclaration \<lparr>node_start = 17, node_end = 40\<rparr>
        [ImportDefaultSpecifier \<lparr>node_start = 24, node_end = 25\<rparr>] (StringValue ''./z.js'')"
  have 1: "?d \<in> set (body (program module_bare))"
    by (simp add: module_bare_def moduleOf_def program_bare_def)
  have 2: "isImportDeclaration ?d" by simp
  have 3: "importSpecifiersOf ?d = []" by (simp add: importSpecifiersOf_def)
  have src: \<open>source module_bare =
      ''import "./z.js";\<newline>import d from "./z.js";\<newline>import * as n from "./z.js";\<newline>d();\<newline>''\<close>
    by (simp add: module_bare_def moduleOf_def source_bare_def)
  from bare_eval obtain c u rest where
    cs: "treeShaker 2 exampleWorld [0] options_bare = Some (Inr [c])"
    and ms: "modules (graph c) = (u, module_bare) # rest"
    and within: "spansWithinGraph (graph c)"
    by (auto split: option.splits sum.splits list.splits)
  note removed = no_named_specifier_removed
    [where d = ?d and m = module_bare and c = c and u = u and rest = rest and j = 0
       and cs = "[c]", OF 1 2 3]
  from removed have unused: "?d \<in> set (fst (calculateNotUsedImportDeclarations module_bare))"
    by (rule conjunct1)
  have code: "fst (Chunk_generate c) = Inr (editedSource module_bare)"
    by (rule removed [THEN conjunct2, THEN conjunct2, THEN conjunct2, THEN conjunct2,
          THEN conjunct1, rule_format, OF within ms])
  have first: "0 < length [c]" "spansWithinGraph (graph ([c] ! 0))"
    "modules (graph ([c] ! 0)) = (u, module_bare) # rest"
    using within ms by simp_all
  have total: "\<forall>i < length [c]. \<exists>code. fst (Chunk_generate ([c] ! i)) = Inr code"
    using code by simp
  have "\<exists>codes. fst (generate [c]) = Inr codes \<and> codes ! 0 = editedSource module_bare"
    by (rule removed [THEN conjunct2, THEN conjunct2, THEN conjunct2, THEN conjunct2,
          THEN conjunct2, rule_format, OF first, THEN conjunct2, rule_format,
          OF total [rule_format]])
  then obtain codes where
    codes: "fst (generate [c]) = Inr codes" "codes ! 0 = editedSource module_bare"
    by blast
  have "\<exists>c codes. treeShaker 2 exampleWorld [0] options_bare = Some (Inr [c]) \<and>
       fst (Chunk_generate c) = Inr ''\<newline>\<newline>\<newline>d();\<newline>'' \<and>
       fst (generate [c]) = Inr codes \<and> codes ! 0 = ''\<newline>\<newline>\<newline>d();\<newline>''"
    using cs code codes by (intro exI [of _ c] exI [of _ codes]) (simp add: editedSource_bare)
  with 3 unused src show ?thesis by (intro conjI)
qed

section \<open>A build that is fulfilled at one depth is fulfilled at every greater depth\<close>

lemma initDependencies_deeper:
  assumes step: "\<And>oid path ms r. initModuleRecursively n w oid path par ms = Some (Inr r) \<Longrightarrow>
      initModuleRecursively (Suc n) w oid path par ms = Some (Inr r)"
  shows "initDependencies n w oid k paths par ms = Some (Inr r) \<Longrightarrow>
         initDependencies (Suc n) w oid k paths par ms = Some (Inr r)"
proof (induction paths arbitrary: k ms)
  case Nil
  then show ?case by simp
next
  case (Cons d paths)
  from Cons.prems obtain ms' where
    first: "initModuleRecursively n w (oid @ [k]) d par ms = Some (Inr ms')"
    and rest: "initDependencies n w oid (Suc k) paths par ms' = Some (Inr r)"
    by (auto split: option.splits sum.splits)
  from step [OF first] Cons.IH [OF rest] show ?case by simp
qed

lemma initModuleRecursively_deeper:
  "initModuleRecursively n w oid path par ms = Some (Inr r) \<Longrightarrow>
   initModuleRecursively (Suc n) w oid path par ms = Some (Inr r)"
proof (induction n arbitrary: oid path par ms r)
  case 0
  then show ?case by simp
next
  case (Suc n)
  from Suc.prems obtain m ms' where
    m: "initModule w oid path par ms = Inr (m, ms')"
    and deps: "initDependencies n w oid 0 (calculateDependencyPaths m) (resolvedPath m) ms' =
      Some (Inr r)"
    by (auto split: sum.splits)
  have "initDependencies (Suc n) w oid 0 (calculateDependencyPaths m) (resolvedPath m) ms' =
      Some (Inr r)"
    using deps by (rule initDependencies_deeper [rotated]) (rule Suc.IH)
  with m show ?case by simp
qed

lemma Graph_build_deeper:
  "Graph_build n w oid g = Some (Inr g') \<Longrightarrow> Graph_build (n + k) w oid g = Some (Inr g')"
proof (induction k)
  case 0
  then show ?case by simp
next
  case (Suc k)
  then have "Graph_build (n + k) w oid g = Some (Inr g')" by simp
  then obtain ms where
    "initModuleRecursively (n + k) w oid (graph_source g) (graph_parent g) (modules g) = Some (Inr ms)"
    and g': "g' = g\<lparr>modules := ms\<rparr>"
    by (auto simp: Graph_build_def split: option.splits sum.splits)
  then have "initModuleRecursively (Suc (n + k)) w oid (graph_source g) (graph_parent g) (modules g) =
      Some (Inr ms)"
    by (simp only: initModuleRecursively_deeper)
  with g' show ?case by (simp add: Graph_build_def)
qed

lemma Chunk_build_deeper:
  "Chunk_build n w oid c = Some (Inr c') \<Longrightarrow> Chunk_build (n + k) w oid c = Some (Inr c')"
proof -
  assume "Chunk_build n w oid c = Some (Inr c')"
  then obtain g where "Graph_build n w oid (graph c) = Some (Inr g)" and c': "c' = c\<lparr>graph := g\<rparr>"
    by (auto simp: Chunk_build_def split: option.splits sum.splits)
  then have "Graph_build (n + k) w oid (graph c) = Some (Inr g)"
    by (simp only: Graph_build_deeper)
  with c' show ?thesis by (simp add: Chunk_build_def)
qed

section \<open>The diamond, a chunk of two modules, and a chunk that fails\<close>

lemma diamond_eval:
  "(case Graph_build 3 exampleWorld [0] (newGraph ''./e.js'' baseUrl) of
      Some (Inr g) \<Rightarrow>
        map (\<lambda>(u, m). (urlId u, href u)) (modules g) =
          [([0], ''file:///e.js''), ([0, 0], ''file:///x.js''), ([0, 0, 0], ''file:///z.js''),
           ([0, 1], ''file:///y.js''), ([0, 1, 0], ''file:///z.js'')]
    | _ \<Rightarrow> False)"
  by code_simp

text \<open>
  C2. The graph's map is keyed by the \<^verbatim>\<open>URL\<close> objects, and every \<^verbatim>\<open>initModule\<close> makes a
  new one. For the diamond (\<^verbatim>\<open>e.js\<close> imports \<^verbatim>\<open>x.js\<close> and \<^verbatim>\<open>y.js\<close>, both import \<^verbatim>\<open>z.js\<close>) the
  build, at every depth of three or more, registers \<^verbatim>\<open>z.js\<close> twice, under two keys with
  the same \<^verbatim>\<open>href\<close>.
\<close>

theorem diamond_registers_twice:
  "\<exists>g. (\<forall>n. Graph_build (3 + n) exampleWorld [0] (newGraph ''./e.js'' baseUrl) = Some (Inr g)) \<and>
       map (\<lambda>(u, m). (urlId u, href u)) (modules g) =
         [([0], ''file:///e.js''), ([0, 0], ''file:///x.js''), ([0, 0, 0], ''file:///z.js''),
          ([0, 1], ''file:///y.js''), ([0, 1, 0], ''file:///z.js'')] \<and>
       length (filter (\<lambda>(u, m). href u = ''file:///z.js'') (modules g)) = 2"
proof -
  from diamond_eval obtain g where
    g: "Graph_build 3 exampleWorld [0] (newGraph ''./e.js'' baseUrl) = Some (Inr g)"
    and ms: "map (\<lambda>(u, m). (urlId u, href u)) (modules g) =
         [([0], ''file:///e.js''), ([0, 0], ''file:///x.js''), ([0, 0, 0], ''file:///z.js''),
          ([0, 1], ''file:///y.js''), ([0, 1, 0], ''file:///z.js'')]"
    by (auto split: option.splits sum.splits)
  have deeper: "\<forall>n. Graph_build (3 + n) exampleWorld [0] (newGraph ''./e.js'' baseUrl) = Some (Inr g)"
    using Graph_build_deeper [OF g] by blast
  have "length (filter (\<lambda>(u, m). href u = ''file:///z.js'') (modules g)) =
        length (filter (\<lambda>(i, h). h = ''file:///z.js'') (map (\<lambda>(u, m). (urlId u, href u)) (modules g)))"
    by (simp add: filter_map comp_def case_prod_unfold)
  also have "\<dots> = 2" by (simp add: ms)
  finally have twice: "length (filter (\<lambda>(u, m). href u = ''file:///z.js'') (modules g)) = 2" .
  show ?thesis
    by (rule exI [of _ g]) (intro conjI deeper ms twice)
qed

lemma chunk_x_eval:
  \<open>(case Chunk_build 2 exampleWorld [0] (newChunk ''./x.js'' ''x.out.js'' baseUrl) of
      Some (Inr c) \<Rightarrow>
        map (\<lambda>(u, m). href u) (modules (graph c)) = [''file:///x.js'', ''file:///z.js''] \<and>
        map_sum id (map snd) (fst (removeUnusedImports (graph c))) =
          Inr [''import {z} from "./z.js";\<newline>z();\<newline>'', ''export function z() {}\<newline>''] \<and>
        fst (Chunk_generate c) = Inr ''import {z} from "./z.js";\<newline>z();\<newline>''
    | _ \<Rightarrow> False)\<close>
  by code_simp

text \<open>
  C5. For the chunk of \<^verbatim>\<open>x.js\<close>, which imports \<^verbatim>\<open>z.js\<close>, the graph holds both modules and
  \<^verbatim>\<open>removeUnusedImports\<close> returns a text for each, but \<^verbatim>\<open>generate\<close> returns the text of the
  entry module alone.
\<close>

theorem generate_entry_module_only:
  \<open>\<exists>c. (\<forall>n. Chunk_build (2 + n) exampleWorld [0] (newChunk ''./x.js'' ''x.out.js'' baseUrl) =
            Some (Inr c)) \<and>
       map (\<lambda>(u, m). href u) (modules (graph c)) = [''file:///x.js'', ''file:///z.js''] \<and>
       map_sum id (map snd) (fst (removeUnusedImports (graph c))) =
         Inr [''import {z} from "./z.js";\<newline>z();\<newline>'', ''export function z() {}\<newline>''] \<and>
       fst (Chunk_generate c) = Inr ''import {z} from "./z.js";\<newline>z();\<newline>''\<close>
proof -
  from chunk_x_eval obtain c where
    c: "Chunk_build 2 exampleWorld [0] (newChunk ''./x.js'' ''x.out.js'' baseUrl) = Some (Inr c)"
    and ms: "map (\<lambda>(u, m). href u) (modules (graph c)) = [''file:///x.js'', ''file:///z.js'']"
    and texts: \<open>map_sum id (map snd) (fst (removeUnusedImports (graph c))) =
         Inr [''import {z} from "./z.js";\<newline>z();\<newline>'', ''export function z() {}\<newline>'']\<close>
    and code: \<open>fst (Chunk_generate c) = Inr ''import {z} from "./z.js";\<newline>z();\<newline>''\<close>
    by (auto split: option.splits sum.splits)
  have deeper: "\<forall>n. Chunk_build (2 + n) exampleWorld [0] (newChunk ''./x.js'' ''x.out.js'' baseUrl) =
      Some (Inr c)"
    using Chunk_build_deeper [OF c] by blast
  show ?thesis
    by (rule exI [of _ c]) (intro conjI deeper ms texts code)
qed

lemma two_eval:
  \<open>(case treeShaker 2 exampleWorld [1, 0] options_two of
      Some (Inr cs) \<Rightarrow>
        fst (generate cs) =
          Inr [''import {z} from "./z.js";\<newline>z();\<newline>'', ''export function z() {}\<newline>'']
    | _ \<Rightarrow> False)\<close>
  by code_simp

lemma entries_two:
  "objectEntries (chunks options_two) = [(''x.out.js'', ''./x.js''), (''z.out.js'', ''./z.js'')]"
  by code_simp

theorem generate_in_entries_order_witness:
  \<open>validSchedule [1, 0] (length (chunks options_two)) \<and>
    (\<exists>cs. treeShaker 2 exampleWorld [1, 0] options_two = Some (Inr cs) \<and>
        fst (generate cs) =
          Inr [''import {z} from "./z.js";\<newline>z();\<newline>'', ''export function z() {}\<newline>''] \<and>
        chunk_source (cs ! 0) = ''./x.js'' \<and>
        fst (Chunk_generate (cs ! 0)) = Inr ''import {z} from "./z.js";\<newline>z();\<newline>'' \<and>
        chunk_source (cs ! 1) = ''./z.js'' \<and>
        fst (Chunk_generate (cs ! 1)) = Inr ''export function z() {}\<newline>'')\<close>
proof -
  have valid: "validSchedule [1, 0] (length (chunks options_two))"
    by (auto simp: validSchedule_def options_two_def)
  from two_eval obtain cs where
    cs: "treeShaker 2 exampleWorld [1, 0] options_two = Some (Inr cs)"
    and codes: \<open>fst (generate cs) =
          Inr [''import {z} from "./z.js";\<newline>z();\<newline>'', ''export function z() {}\<newline>'']\<close>
    by (auto split: option.splits sum.splits)
  have len: "length (objectEntries (chunks options_two)) = 2" and
    entries: "objectEntries (chunks options_two) ! 0 = (''x.out.js'', ''./x.js'')"
      "objectEntries (chunks options_two) ! 1 = (''z.out.js'', ''./z.js'')"
    by (simp_all add: entries_two)
  from generate_in_entries_order [OF valid cs] codes len have
    "\<forall>k < 2. chunk_source (cs ! k) = snd (objectEntries (chunks options_two) ! k)"
    \<open>\<forall>k < 2. fst (Chunk_generate (cs ! k)) =
       Inr ([''import {z} from "./z.js";\<newline>z();\<newline>'', ''export function z() {}\<newline>''] ! k)\<close>
    by simp_all
  then have "chunk_source (cs ! 0) = ''./x.js''" "chunk_source (cs ! 1) = ''./z.js''"
    \<open>fst (Chunk_generate (cs ! 0)) = Inr ''import {z} from "./z.js";\<newline>z();\<newline>''\<close>
    \<open>fst (Chunk_generate (cs ! 1)) = Inr ''export function z() {}\<newline>''\<close>
    using entries by (simp_all del: One_nat_def)
  then have "\<exists>cs. treeShaker 2 exampleWorld [1, 0] options_two = Some (Inr cs) \<and>
        fst (generate cs) =
          Inr [''import {z} from \"./z.js\";\<newline>z();\<newline>'', ''export function z() {}\<newline>''] \<and>
        chunk_source (cs ! 0) = ''./x.js'' \<and>
        fst (Chunk_generate (cs ! 0)) = Inr ''import {z} from \"./z.js\";\<newline>z();\<newline>'' \<and>
        chunk_source (cs ! 1) = ''./z.js'' \<and>
        fst (Chunk_generate (cs ! 1)) = Inr ''export function z() {}\<newline>''"
    by (intro exI [of _ cs] conjI cs codes)
  with valid show ?thesis by (rule conjI)
qed

text \<open>
  The chunk of \<^verbatim>\<open>x.js\<close> is declared first, with the destination \<^verbatim>\<open>b\<close>, and the chunk of
  \<^verbatim>\<open>z.js\<close> second, with the destination \<^verbatim>\<open>1\<close>: \<^verbatim>\<open>Object.entries\<close> lists the second first, and
  \<^verbatim>\<open>generate\<close> returns the text of \<^verbatim>\<open>z.js\<close> before that of \<^verbatim>\<open>x.js\<close>, in either order of the
  builds.
\<close>

lemma index_eval:
  \<open>(case treeShaker 2 exampleWorld [0, 1] options_index of
      Some (Inr cs) \<Rightarrow>
        map chunk_destination cs = [''1'', ''b''] \<and>
        fst (generate cs) =
          Inr [''export function z() {}\<newline>'', ''import {z} from "./z.js";\<newline>z();\<newline>'']
    | _ \<Rightarrow> False) \<and>
    (case treeShaker 2 exampleWorld [1, 0] options_index of
      Some (Inr cs) \<Rightarrow>
        map chunk_destination cs = [''1'', ''b''] \<and>
        fst (generate cs) =
          Inr [''export function z() {}\<newline>'', ''import {z} from "./z.js";\<newline>z();\<newline>'']
    | _ \<Rightarrow> False)\<close>
  by code_simp

theorem generate_declared_order_counterexample:
  \<open>chunks options_index = [(''b'', ''./x.js''), (''1'', ''./z.js'')] \<and>
    (\<exists>cs. treeShaker 2 exampleWorld [0, 1] options_index = Some (Inr cs) \<and>
       map chunk_destination cs = [''1'', ''b''] \<and>
       fst (generate cs) =
         Inr [''export function z() {}\<newline>'', ''import {z} from "./z.js";\<newline>z();\<newline>'']) \<and>
    (\<exists>cs. treeShaker 2 exampleWorld [1, 0] options_index = Some (Inr cs) \<and>
       map chunk_destination cs = [''1'', ''b''] \<and>
       fst (generate cs) =
         Inr [''export function z() {}\<newline>'', ''import {z} from "./z.js";\<newline>z();\<newline>''])\<close>
proof (intro conjI)
  show "chunks options_index = [(''b'', ''./x.js''), (''1'', ''./z.js'')]"
    by (simp add: options_index_def)
  show \<open>\<exists>cs. treeShaker 2 exampleWorld [0, 1] options_index = Some (Inr cs) \<and>
       map chunk_destination cs = [''1'', ''b''] \<and>
       fst (generate cs) =
         Inr [''export function z() {}\<newline>'', ''import {z} from "./z.js";\<newline>z();\<newline>'']\<close>
    using index_eval [THEN conjunct1] by (auto split: option.splits sum.splits)
  show \<open>\<exists>cs. treeShaker 2 exampleWorld [1, 0] options_index = Some (Inr cs) \<and>
       map chunk_destination cs = [''1'', ''b''] \<and>
       fst (generate cs) =
         Inr [''export function z() {}\<newline>'', ''import {z} from "./z.js";\<newline>z();\<newline>'']\<close>
    using index_eval [THEN conjunct2] by (auto split: option.splits sum.splits)
qed

text \<open>
  The chunk of \<^verbatim>\<open>missing.js\<close> cannot be read: \<^verbatim>\<open>treeShaker\<close> is rejected and returns no
  handle at any depth, in either order of the builds, although the build of the sibling
  chunk of \<^verbatim>\<open>x.js\<close> is fulfilled and that chunk would generate its text.
\<close>

lemma failing_eval:
  \<open>treeShaker 2 exampleWorld [0, 1] options_failing = Some (Inl ReadFileError) \<and>
    treeShaker 2 exampleWorld [1, 0] options_failing = Some (Inl ReadFileError) \<and>
    (case buildChunk 2 exampleWorld baseUrl (0, ''x.out.js'', ''./x.js'') of
       Some (Inr c) \<Rightarrow> fst (Chunk_generate c) = Inr ''import {z} from "./z.js";\<newline>z();\<newline>''
     | _ \<Rightarrow> False)\<close>
  by code_simp

lemma entries_failing:
  "objectEntries (chunks options_failing) =
     [(''x.out.js'', ''./x.js''), (''missing.out.js'', ''./missing.js'')]"
  by code_simp

lemma missing_never_built:
  "buildChunk n exampleWorld baseUrl (1, ''missing.out.js'', ''./missing.js'') \<noteq> Some (Inr c)"
  by (cases n)
    (simp_all add: buildChunk_def Chunk_build_def Graph_build_def newChunk_def newGraph_def
      initModule_def initialize_def exampleWorld_def baseUrl_def)

lemma failing_never_fulfilled:
  assumes "validSchedule schedule (length (chunks options_failing))"
  shows "treeShaker n exampleWorld schedule options_failing \<noteq> Some (Inr cs)"
proof
  assume "treeShaker n exampleWorld schedule options_failing = Some (Inr cs)"
  then have "\<forall>k < length (objectEntries (chunks options_failing)).
      buildChunk n exampleWorld (parent options_failing)
        (k, objectEntries (chunks options_failing) ! k) = Some (Inr (cs ! k))"
    by (simp add: treeShaker_fulfilled [OF assms])
  moreover have "1 < length (objectEntries (chunks options_failing))"
    by (simp add: entries_failing)
  ultimately have "buildChunk n exampleWorld (parent options_failing)
      (1, objectEntries (chunks options_failing) ! 1) = Some (Inr (cs ! 1))"
    by blast
  moreover have "objectEntries (chunks options_failing) ! 1 = (''missing.out.js'', ''./missing.js'')"
    by (simp add: entries_failing)
  moreover have "parent options_failing = baseUrl"
    by (simp add: options_failing_def)
  ultimately show False
    using missing_never_built [of n "cs ! 1"] by simp
qed

theorem build_failure_counterexample:
  \<open>treeShaker 2 exampleWorld [0, 1] options_failing = Some (Inl ReadFileError) \<and>
    treeShaker 2 exampleWorld [1, 0] options_failing = Some (Inl ReadFileError) \<and>
    (\<forall>n cs. treeShaker n exampleWorld [0, 1] options_failing \<noteq> Some (Inr cs)) \<and>
    (\<forall>n cs. treeShaker n exampleWorld [1, 0] options_failing \<noteq> Some (Inr cs)) \<and>
    (\<exists>c. buildChunk 2 exampleWorld baseUrl (0, ''x.out.js'', ''./x.js'') = Some (Inr c) \<and>
         fst (Chunk_generate c) = Inr ''import {z} from "./z.js";\<newline>z();\<newline>'')\<close>
proof -
  have valid: "validSchedule [0, 1] (length (chunks options_failing))"
    "validSchedule [1, 0] (length (chunks options_failing))"
    by (auto simp: validSchedule_def options_failing_def)
  have never:
    "treeShaker n exampleWorld [0, 1] options_failing \<noteq> Some (Inr cs)"
    "treeShaker n exampleWorld [1, 0] options_failing \<noteq> Some (Inr cs)" for n cs
    by (rule failing_never_fulfilled [OF valid(1)], rule failing_never_fulfilled [OF valid(2)])
  from failing_eval have rejected:
    "treeShaker 2 exampleWorld [0, 1] options_failing = Some (Inl ReadFileError)"
    "treeShaker 2 exampleWorld [1, 0] options_failing = Some (Inl ReadFileError)"
    by simp_all
  from failing_eval have sibling:
    "\<exists>c. buildChunk 2 exampleWorld baseUrl (0, ''x.out.js'', ''./x.js'') = Some (Inr c) \<and>
         fst (Chunk_generate c) = Inr ''import {z} from \"./z.js\";\<newline>z();\<newline>''"
    by (auto split: option.splits sum.splits)
  show ?thesis
    by (intro conjI allI rejected never sibling)
qed

theorem build_failure_rejects_all_witness:
  "validSchedule [1, 0] (length (chunks options_failing)) \<and>
   buildChunk 2 exampleWorld (parent options_failing)
     (1, objectEntries (chunks options_failing) ! 1) = Some (Inl ReadFileError) \<and>
   (\<exists>e. treeShaker 2 exampleWorld [1, 0] options_failing = Some (Inl e))"
proof -
  have valid: "validSchedule [1, 0] (length (chunks options_failing))"
    by (auto simp: validSchedule_def options_failing_def)
  have failed: "buildChunk 2 exampleWorld (parent options_failing)
      (1, objectEntries (chunks options_failing) ! 1) = Some (Inl ReadFileError)"
    by code_simp
  have "1 < length (objectEntries (chunks options_failing))"
    by (simp add: entries_failing)
  then have "\<exists>k < length (objectEntries (chunks options_failing)). \<exists>e.
      buildChunk 2 exampleWorld (parent options_failing)
        (k, objectEntries (chunks options_failing) ! k) = Some (Inl e)"
    using failed by blast
  moreover have "(\<exists>k < length (objectEntries (chunks options_failing)). \<exists>e.
      buildChunk 2 exampleWorld (parent options_failing)
        (k, objectEntries (chunks options_failing) ! k) = Some (Inl e)) \<longrightarrow>
      (\<exists>e. treeShaker 2 exampleWorld [1, 0] options_failing = Some (Inl e))"
    using build_failure_rejects_all [OF valid, of 2 exampleWorld] by (rule conjunct1)
  ultimately have "\<exists>e. treeShaker 2 exampleWorld [1, 0] options_failing = Some (Inl e)"
    by (rule rev_mp)
  with valid failed show ?thesis by (intro conjI)
qed

end
